theory Spec2Isabelle
  imports Main "HOL-Library.AList"
begin

section \<open>JavaScript values\<close>

text \<open>
  The values the chat client receives from \<^verbatim>\<open>response.json()\<close>. A string is the list
  of the bytes of its UTF-8 encoding. A number is kept as the text \<^verbatim>\<open>String(n)\<close> gives for it
  (\<^verbatim>\<open>0\<close> for both zeros), which is all the client uses of a number. An absent property
  (JavaScript's \<^verbatim>\<open>undefined\<close>) is \<open>None\<close> of \<open>json option\<close>. An object is the list of its
  own properties, with distinct keys, as \<^verbatim>\<open>JSON.parse\<close> builds it.
\<close>

datatype json =
    JNull
  | JBool bool
  | JNum string
  | JStr string
  | JArr "json list"
  | JObj "(string \<times> json) list"

text \<open>An exception object: its \<^verbatim>\<open>name\<close> and its \<^verbatim>\<open>message\<close>.\<close>

datatype exn = Exn (exn_name: string) (exn_message: string)

text \<open>Truthiness, as \<^verbatim>\<open>if (v)\<close>, \<^verbatim>\<open>!v\<close> and \<^verbatim>\<open>a || b\<close> test it.\<close>

fun truthy :: "json \<Rightarrow> bool" where
  "truthy JNull = False"
| "truthy (JBool b) = b"
| "truthy (JNum n) = (n \<noteq> ''0'' \<and> n \<noteq> ''NaN'')"
| "truthy (JStr s) = (s \<noteq> [])"
| "truthy (JArr xs) = True"
| "truthy (JObj kvs) = True"

definition truthy_opt :: "json option \<Rightarrow> bool" where
  "truthy_opt v = (case v of None \<Rightarrow> False | Some j \<Rightarrow> truthy j)"

text \<open>
  Reading a property \<^verbatim>\<open>v.k\<close> of a value other than \<^verbatim>\<open>null\<close>, for the keys the client
  reads (\<^verbatim>\<open>answer\<close>, \<^verbatim>\<open>error_message\<close>, \<^verbatim>\<open>is_valid\<close>, ...): only an object has them.
  Reading a property of \<^verbatim>\<open>null\<close> throws; the callers below test for \<open>JNull\<close> first.
\<close>

fun get_prop :: "json \<Rightarrow> string \<Rightarrow> json option" where
  "get_prop (JObj kvs) k = map_of kvs k"
| "get_prop v k = None"

text \<open>
  The \<^verbatim>\<open>in\<close> operator, for the field names the client tests (none of them is
  \<^verbatim>\<open>length\<close> or an index, so an array has none of them); on a primitive value it throws
  a TypeError, whose message is the engine's and is not read by the client.
\<close>

fun has_prop :: "string \<Rightarrow> json \<Rightarrow> exn + bool" where
  "has_prop k (JObj kvs) = Inr (k \<in> fst ` set kvs)"
| "has_prop k (JArr xs) = Inr False"
| "has_prop k v = Inl (Exn ''TypeError'' ''Cannot use in operator to search for a key in a primitive'')"

fun join_comma :: "string list \<Rightarrow> string" where
  "join_comma [] = []"
| "join_comma [x] = x"
| "join_comma (x # y # zs) = x @ '','' @ join_comma (y # zs)"

text \<open>
  String conversion, as a template literal \<^verbatim>\<open>`${v}`\<close> performs it. An array is joined
  with commas, \<^verbatim>\<open>null\<close> elements giving the empty string.
\<close>

fun js_string :: "json \<Rightarrow> string" where
  "js_string JNull = ''null''"
| "js_string (JBool b) = (if b then ''true'' else ''false'')"
| "js_string (JNum n) = n"
| "js_string (JStr s) = s"
| "js_string (JArr xs) = join_comma (map (\<lambda>x. if x = JNull then [] else js_string x) xs)"
| "js_string (JObj kvs) = ''[object Object]''"

text \<open>\<^verbatim>\<open>s.split(",")\<close> and indexing of the resulting array.\<close>

fun split_comma :: "string \<Rightarrow> string list" where
  "split_comma [] = [[]]"
| "split_comma (c # cs) =
     (if c = CHR '','' then [] # split_comma cs
      else (case split_comma cs of [] \<Rightarrow> [[c]] | p # ps \<Rightarrow> (c # p) # ps))"

definition nth_opt :: "'a list \<Rightarrow> nat \<Rightarrow> 'a option" where
  "nth_opt xs i = (if i < length xs then Some (xs ! i) else None)"

text \<open>
  \<^verbatim>\<open>String.prototype.trim\<close> removes, at both ends, the white space and line terminators
  of ECMAScript. In UTF-8 these are the bytes 09 to 0D and 20; C2 A0 (U+00A0); E1 9A 80
  (U+1680); E2 80 80 to E2 80 8A (U+2000 to U+200A); E2 80 A8 and E2 80 A9 (U+2028,
  U+2029); E2 80 AF (U+202F); E2 81 9F (U+205F); E3 80 80 (U+3000); EF BB BF (U+FEFF).
\<close>

definition is_space1 :: "char \<Rightarrow> bool" where
  "is_space1 c = (c \<in> {CHR 0x09, CHR 0x0A, CHR 0x0B, CHR 0x0C, CHR 0x0D, CHR 0x20})"

definition is_space2 :: "char \<Rightarrow> char \<Rightarrow> bool" where
  "is_space2 c d = (c = CHR 0xC2 \<and> d = CHR 0xA0)"

definition is_space3 :: "char \<Rightarrow> char \<Rightarrow> char \<Rightarrow> bool" where
  "is_space3 c d e =
     ((c = CHR 0xE1 \<and> d = CHR 0x9A \<and> e = CHR 0x80)
      \<or> (c = CHR 0xE2 \<and> d = CHR 0x80 \<and>
          e \<in> {CHR 0x80, CHR 0x81, CHR 0x82, CHR 0x83, CHR 0x84, CHR 0x85, CHR 0x86, CHR 0x87,
               CHR 0x88, CHR 0x89, CHR 0x8A, CHR 0xA8, CHR 0xA9, CHR 0xAF})
      \<or> (c = CHR 0xE2 \<and> d = CHR 0x81 \<and> e = CHR 0x9F)
      \<or> (c = CHR 0xE3 \<and> d = CHR 0x80 \<and> e = CHR 0x80)
      \<or> (c = CHR 0xEF \<and> d = CHR 0xBB \<and> e = CHR 0xBF))"

text \<open>The white space at the start of a string is removed character by character.\<close>

fun trimStart :: "string \<Rightarrow> string" where
  "trimStart [] = []"
| "trimStart [c] = (if is_space1 c then [] else [c])"
| "trimStart [c, d] =
     (if is_space1 c then trimStart [d] else if is_space2 c d then [] else [c, d])"
| "trimStart (c # d # e # cs) =
     (if is_space1 c then trimStart (d # e # cs)
      else if is_space2 c d then trimStart (e # cs)
      else if is_space3 c d e then trimStart cs
      else c # d # e # cs)"

text \<open>
  The same at the end of a string, on the reversed string: its first byte \<open>z\<close> is the last
  byte of the string, so the bytes of a character come last byte first.
\<close>

fun trimEnd_rev :: "string \<Rightarrow> string" where
  "trimEnd_rev [] = []"
| "trimEnd_rev [z] = (if is_space1 z then [] else [z])"
| "trimEnd_rev [z, y] =
     (if is_space1 z then trimEnd_rev [y] else if is_space2 y z then [] else [z, y])"
| "trimEnd_rev (z # y # x # cs) =
     (if is_space1 z then trimEnd_rev (y # x # cs)
      else if is_space2 y z then trimEnd_rev (x # cs)
      else if is_space3 x y z then trimEnd_rev cs
      else z # y # x # cs)"

definition trim :: "string \<Rightarrow> string" where
  "trim s = rev (trimEnd_rev (rev (trimStart s)))"

text \<open>
  What the browser and jQuery contribute and the sources do not contain:
  \<^item> \<open>append_throws\<close>: the exception jQuery's \<^verbatim>\<open>.append(answer)\<close> throws for a decoded
    value it cannot append (\<open>None\<close> when it appends it); the markup the client builds
    itself for its messages is a string, which \<^verbatim>\<open>.append\<close> parses and appends;
  \<^item> \<open>exceeds_zero\<close>: whether \<^verbatim>\<open>w > 0\<close> holds for a decoded value \<open>w\<close>, after the
    engine's conversion to a number.
  Both are parameters of the page.
\<close>

record platform =
  append_throws :: "json \<Rightarrow> exn option"
  exceeds_zero :: "json \<Rightarrow> bool"

section \<open>Data model\<close>

text \<open>
  \<^verbatim>\<open>window.company_ui_config\<close>: the tenant's structured field. The element id is
  \<open>element_id\<close> (the source's \<^verbatim>\<open>id\<close>).
\<close>

record config =
  enabled :: bool
  element_id :: string
  data_key :: string

text \<open>A file queued in the FilePond widget: its name and its raw content.\<close>

datatype jsfile = File (file_name: string) (file_bytes: "nat list")

text \<open>One element of \<^verbatim>\<open>data.files\<close>; \<open>None\<close> is an undefined \<^verbatim>\<open>content\<close>.\<close>

record file_entry =
  filename :: string
  content :: "string option"

text \<open>
  The request body \<^verbatim>\<open>data\<close> of \<^verbatim>\<open>handleChatMessage\<close>. The object \<^verbatim>\<open>client_data\<close> is
  the map from its own keys to their values.
\<close>

record payload =
  p_question :: string
  p_prompt_name :: string
  p_client_data :: "string \<rightharpoonup> string"
  p_files :: "file_entry list"
  p_external_user_id :: string

text \<open>
  Where a suspended call of \<^verbatim>\<open>handleChatMessage\<close> waits: at
  \<^verbatim>\<open>await Promise.all(...)\<close>, at \<^verbatim>\<open>await fetch(...)\<close> (the deadline timer armed), or at
  \<^verbatim>\<open>await response.json()\<close> (the timer cleared; the flag is \<^verbatim>\<open>response.ok\<close>).
\<close>

datatype phase = AwaitEncoding | AwaitFetch | AwaitBody bool

text \<open>
  The frame of one suspended call of \<^verbatim>\<open>handleChatMessage\<close>: its local constants, the
  files it read from the widget, the value each \<^verbatim>\<open>toBase64\<close> promise has resolved with
  (\<open>None\<close> while the FileReader is still reading), and the body handed to \<^verbatim>\<open>fetch\<close>.
\<close>

record activation =
  a_question :: string
  a_selectedPrompt :: string
  a_specificDataValue :: string
  a_files :: "jsfile list"
  a_results :: "(string \<times> string option) option list"
  a_phase :: phase
  a_data :: "payload option"

text \<open>The body of a document card: the causes of rejection, the notice of validity, or neither.\<close>

datatype card_body = RejectionReasons "string list" | ValidNotice | NoBody

datatype card = Card (card_filename: string) (badge_style: string) (badge_text: "json option")
  (body_of: card_body)

text \<open>
  The children appended to \<^verbatim>\<open>#chat-container\<close>: a user message (its text, and the question
  its edit icon restores when it has one), an answer section, an error section (its classes
  and the content appended to it) and a document card. The spinner is kept apart.
\<close>

datatype entry =
    UserMessage string "string option"
  | AnswerSection json
  | ErrorSection string string
  | DocumentSection card

text \<open>Calls and console output recorded for the properties that count them.\<close>

datatype ui_call = CallHideSpinner | CallSetButtonToSend | CallSwalFire

datatype diag = ConsoleError exn | ConsoleWarn json

text \<open>
  The page: the platform, the configuration and the session's user identifier (all fixed at
  page load), the module's variables (\<^verbatim>\<open>currentAbortController\<close> holds the identifier of
  the call that created the controller), \<^verbatim>\<open>window.isManualAbort\<close>, the form fields, the widget's files,
  the transcript, the spinner, the send button's mode, the visibility of the two button
  containers, the recorded calls and console output, the suspended calls of
  \<^verbatim>\<open>handleChatMessage\<close> and the identifier of the next one.
\<close>

record state =
  browser :: platform
  specificDataConfig :: "config option"
  externalUserId :: string
  currentAbortController :: "nat option"
  isRequestInProgress :: bool
  isManualAbort :: bool
  questionField :: string
  agentSelectValue :: string
  agentSelectDescription :: string
  specificDataField :: string
  filePond :: "jsfile list"
  transcript :: "entry list"
  spinner :: bool
  stopMode :: bool
  sendContainerVisible :: bool
  stopContainerVisible :: bool
  calls :: "ui_call list"
  console :: "diag list"
  acts :: "(nat \<times> activation) list"
  nextId :: nat

text \<open>
  The page after loading. \<^verbatim>\<open>window.isManualAbort\<close> is not yet defined, which is falsy. The
  page template is not part of the sources: the send container is taken as shown and the
  stop container as hidden, which is also what \<^verbatim>\<open>toggleSendStopButtons(false)\<close> sets.
\<close>

definition init :: "config option \<Rightarrow> string \<Rightarrow> platform \<Rightarrow> state" where
  "init cfg ext pf =
     \<lparr>browser = pf, specificDataConfig = cfg, externalUserId = ext, currentAbortController = None,
      isRequestInProgress = False, isManualAbort = False, questionField = [],
      agentSelectValue = [], agentSelectDescription = [], specificDataField = [],
      filePond = [], transcript = [], spinner = False, stopMode = False,
      sendContainerVisible = True, stopContainerVisible = False, calls = [], console = [],
      acts = [], nextId = 0\<rparr>"

section \<open>User interface helpers\<close>

definition displayBotMessage :: "entry \<Rightarrow> state \<Rightarrow> state" where
  "displayBotMessage section s = s\<lparr>transcript := transcript s @ [section]\<rparr>"

text \<open>
  \<^verbatim>\<open>displayUserMessage\<close>: \<open>pencil\<close> starts true; only the third branch clears it. A
  string is falsy exactly when it is empty.
\<close>

definition displayUserMessage :: "string \<Rightarrow> string \<Rightarrow> string \<Rightarrow> string \<Rightarrow> state \<Rightarrow> state" where
  "displayUserMessage question selectedDescription specificDataValue selectedPrompt s =
     (let (messageText, pencil) =
        (if specificDataValue \<noteq> [] \<and> question \<noteq> [] \<and> selectedPrompt = []
           then (specificDataValue @ '': '' @ question, True)
         else if specificDataValue \<noteq> [] \<and> question = [] \<and> selectedPrompt \<noteq> []
           then (specificDataValue @ '': '' @ selectedDescription, True)
         else if specificDataValue = [] \<and> selectedPrompt \<noteq> []
           then (selectedDescription, False)
         else (question, True))
      in s\<lparr>transcript := transcript s @
           [UserMessage messageText (if pencil then Some question else None)]\<rparr>)"

text \<open>
  The spinner: \<^verbatim>\<open>showSpinner\<close> replaces any spinner by a new one; \<^verbatim>\<open>hideSpinner\<close> fades it
  out and removes it, taken here at the end of the animation. The buttons: the class, label
  and style changes of the send button are its mode.
\<close>

definition showSpinner :: "state \<Rightarrow> state" where
  "showSpinner s = s\<lparr>spinner := True\<rparr>"

definition hideSpinner :: "state \<Rightarrow> state" where
  "hideSpinner s = s\<lparr>spinner := False, calls := calls s @ [CallHideSpinner]\<rparr>"

definition setButtonToStop :: "state \<Rightarrow> state" where
  "setButtonToStop s = s\<lparr>stopMode := True, isRequestInProgress := True\<rparr>"

definition setButtonToSend :: "state \<Rightarrow> state" where
  "setButtonToSend s =
     s\<lparr>stopMode := False, isRequestInProgress := False, currentAbortController := None,
       calls := calls s @ [CallSetButtonToSend]\<rparr>"

definition toggleSendStopButtons :: "bool \<Rightarrow> state \<Rightarrow> state" where
  "toggleSendStopButtons showStop s =
     s\<lparr>sendContainerVisible := \<not> showStop, stopContainerVisible := showStop\<rparr>"

definition specific_enabled :: "state \<Rightarrow> bool" where
  "specific_enabled s = (case specificDataConfig s of None \<Rightarrow> False | Some c \<Rightarrow> enabled c)"

definition resetAgentSelect :: "state \<Rightarrow> state" where
  "resetAgentSelect s = s\<lparr>agentSelectValue := [], agentSelectDescription := []\<rparr>"

definition resetSpecificDataInput :: "state \<Rightarrow> state" where
  "resetSpecificDataInput s = (if specific_enabled s then s\<lparr>specificDataField := []\<rparr> else s)"

definition removeFiles :: "state \<Rightarrow> state" where
  "removeFiles s = s\<lparr>filePond := []\<rparr>"

section \<open>Messages\<close>

definition msg_cancelled :: string where
  "msg_cancelled = ''Solicitud cancelada por el usuario''"

definition msg_timeout :: string where
  "msg_timeout = ''La solicitud ha excedido el tiempo l'' @ [CHR 0xC3, CHR 0xAD] @
     ''mite de respuesta, intente nuevamente''"

definition msg_connection :: "string \<Rightarrow> string" where
  "msg_connection m = ''Error de conexi'' @ [CHR 0xC3, CHR 0xB3] @ ''n: '' @ m"

definition msg_unknown :: string where
  "msg_unknown = ''Error desconocido del servidor''"

definition abortMessage :: entry where
  "abortMessage = ErrorSection ''error-section alert alert-warning'' msg_cancelled"

definition timeoutError :: entry where
  "timeoutError = ErrorSection ''error-section alert alert-danger'' msg_timeout"

text \<open>
  The error a signalled \<^verbatim>\<open>AbortController\<close> rejects the pending \<^verbatim>\<open>fetch\<close> or body read
  with, and the TypeError of reading \<^verbatim>\<open>error_message\<close> of \<^verbatim>\<open>null\<close>. The messages are the
  engine's, here V8's; the client reads only the name of the first and renders the message
  of the second.
\<close>

definition abort_error :: exn where
  "abort_error = Exn ''AbortError'' ''signal is aborted without reason''"

definition null_read_error :: exn where
  "null_read_error =
     Exn ''TypeError''
       (''Cannot read properties of null (reading '' @ [CHR 0x27] @ ''error_message'' @
        [CHR 0x27] @ '')'')"

section \<open>The request, from the network call to its completion\<close>

text \<open>
  The \<^verbatim>\<open>catch\<close> block of \<^verbatim>\<open>handleChatMessage\<close>, the code of its \<^verbatim>\<open>try\<close> block after
  \<^verbatim>\<open>await callLLMAPI(...)\<close>, and its \<^verbatim>\<open>finally\<close> block, after which the call is over.
\<close>

definition catch_block :: "exn \<Rightarrow> state \<Rightarrow> state" where
  "catch_block e s =
     (let s1 = s\<lparr>console := console s @ [ConsoleError e]\<rparr>;
          s2 = (if exn_name e = ''AbortError'' then
                  (if isManualAbort s1
                   then (displayBotMessage abortMessage s1)\<lparr>isManualAbort := False\<rparr>
                   else displayBotMessage timeoutError s1)
                else displayBotMessage
                  (ErrorSection ''error-section alert alert-danger''
                     (msg_connection (exn_message e))) s1)
      in setButtonToSend (hideSpinner s2))"

text \<open>
  The statements of the \<^verbatim>\<open>try\<close> block after the call. \<^verbatim>\<open>answerSection.append(answer)\<close>
  comes before \<^verbatim>\<open>displayBotMessage\<close>: when it throws, nothing has been shown.
\<close>

definition on_response :: "json \<Rightarrow> state \<Rightarrow> exn + state" where
  "on_response responseData s =
     (if truthy responseData then
        (case get_prop responseData ''answer'' of
           None \<Rightarrow> Inr s
         | Some answer \<Rightarrow>
             if truthy answer then
               (case append_throws (browser s) answer of
                  Some e \<Rightarrow> Inl e
                | None \<Rightarrow> Inr (displayBotMessage (AnswerSection answer) s))
             else Inr s)
      else Inr s)"

definition finally_block :: "nat \<Rightarrow> state \<Rightarrow> state" where
  "finally_block aid s =
     (let s1 = removeFiles (setButtonToSend (hideSpinner s))
      in s1\<lparr>acts := AList.delete aid (acts s1)\<rparr>)"

definition settle :: "nat \<Rightarrow> exn + json \<Rightarrow> state \<Rightarrow> state" where
  "settle aid r s =
     finally_block aid
       (case r of
          Inl e \<Rightarrow> catch_block e s
        | Inr responseData \<Rightarrow>
            (case on_response responseData s of
               Inl e \<Rightarrow> catch_block e s
             | Inr s1 \<Rightarrow> s1))"

text \<open>
  \<^verbatim>\<open>callLLMAPI\<close>, in the pieces between its suspension points. It returns a value
  (\<open>Inr\<close>, with \<open>JNull\<close> for \<^verbatim>\<open>null\<close>) or throws (\<open>Inl\<close>). The URL and the headers are
  not modelled. \<open>callLLMAPI_start\<close> runs up to \<^verbatim>\<open>await fetch\<close>: the controller is created
  and stored in the module's variable, the timer is armed, the request is issued.
\<close>

definition callLLMAPI_start :: "nat \<Rightarrow> payload \<Rightarrow> state \<Rightarrow> state" where
  "callLLMAPI_start aid data s =
     (case map_of (acts s) aid of
        None \<Rightarrow> s
      | Some a \<Rightarrow>
          s\<lparr>currentAbortController := Some aid,
            acts := AList.update aid (a\<lparr>a_phase := AwaitFetch, a_data := Some data\<rparr>) (acts s)\<rparr>)"

definition callLLMAPI_catch :: "exn \<Rightarrow> state \<Rightarrow> (exn + json) \<times> state" where
  "callLLMAPI_catch e s =
     (if exn_name e = ''AbortError'' then (Inl e, s)
      else (Inr JNull,
            displayBotMessage
              (ErrorSection ''error-section'' (''<p>'' @ msg_connection (exn_message e) @ ''</p>'')) s))"

text \<open>After \<^verbatim>\<open>await response.json()\<close> has resolved with \<open>v\<close>, for a response with \<^verbatim>\<open>ok\<close>.\<close>

definition callLLMAPI_body :: "bool \<Rightarrow> json \<Rightarrow> state \<Rightarrow> (exn + json) \<times> state" where
  "callLLMAPI_body ok v s =
     (if \<not> ok then
        (if v = JNull then callLLMAPI_catch null_read_error s
         else
           (Inr JNull,
            displayBotMessage
              (ErrorSection ''error-section''
                 (''<p>'' @
                  (case get_prop v ''error_message'' of
                     None \<Rightarrow> msg_unknown
                   | Some m \<Rightarrow> if truthy m then js_string m else msg_unknown) @
                  ''</p>'')) s))
      else (Inr v, s))"

text \<open>
  Signalling the controller of call \<open>c\<close>: the pending \<^verbatim>\<open>fetch\<close> or body read rejects with
  the abort error, and the handlers of both functions run before the next event.
\<close>

definition deliver_abort :: "nat \<Rightarrow> state \<Rightarrow> state" where
  "deliver_abort c s =
     (case map_of (acts s) c of
        None \<Rightarrow> s
      | Some a \<Rightarrow>
          if a_phase a = AwaitEncoding then s
          else (let (r, s1) = callLLMAPI_catch abort_error s in settle c r s1))"

text \<open>
  \<^verbatim>\<open>abortCurrentRequest\<close>. Its statements run first; the rejection it caused is handled
  after it returns.
\<close>

definition abortCurrentRequest :: "state \<Rightarrow> state" where
  "abortCurrentRequest s =
     (case currentAbortController s of
        None \<Rightarrow> s
      | Some c \<Rightarrow>
          if isRequestInProgress s then
            deliver_abort c (hideSpinner (toggleSendStopButtons False (s\<lparr>isManualAbort := True\<rparr>)))
          else s)"

section \<open>The submission\<close>

text \<open>\<^verbatim>\<open>toBase64\<close>: what the promise of a file resolves with, given \<^verbatim>\<open>reader.result\<close>.\<close>

definition toBase64 :: "jsfile \<Rightarrow> string \<Rightarrow> string \<times> string option" where
  "toBase64 f result = (file_name f, nth_opt (split_comma result) 1)"

text \<open>
  The assignment \<^verbatim>\<open>obj[k] = v\<close> of a string to a key of an object literal. The key
  \<^verbatim>\<open>__proto__\<close> reaches the setter of the prototype, which ignores a string: no property is
  created. Every other key becomes, or stays, an own property with the value.
\<close>

definition assign :: "string \<Rightarrow> string \<Rightarrow> (string \<rightharpoonup> string) \<Rightarrow> (string \<rightharpoonup> string)" where
  "assign k v obj = (if k = ''__proto__'' then obj else obj(k \<mapsto> v))"

text \<open>The objects \<^verbatim>\<open>client_data\<close> and \<^verbatim>\<open>data\<close>, built after the join on the encodings.\<close>

definition build_client_data :: "config option \<Rightarrow> string \<Rightarrow> string \<Rightarrow> string \<Rightarrow> (string \<rightharpoonup> string)" where
  "build_client_data cfg selectedPrompt question specificDataValue =
     (let client_data = [''prompt_name'' \<mapsto> selectedPrompt, ''question'' \<mapsto> question]
      in case cfg of
           None \<Rightarrow> client_data
         | Some c \<Rightarrow>
             if enabled c \<and> specificDataValue \<noteq> []
             then assign (data_key c) specificDataValue client_data
             else client_data)"

definition build_data :: "state \<Rightarrow> activation \<Rightarrow> (string \<times> string option) list \<Rightarrow> payload" where
  "build_data s a filesBase64 =
     \<lparr>p_question = a_question a,
      p_prompt_name = a_selectedPrompt a,
      p_client_data = build_client_data (specificDataConfig s) (a_selectedPrompt a)
         (a_question a) (a_specificDataValue a),
      p_files = map (\<lambda>fileData. \<lparr>filename = fst fileData, content = snd fileData\<rparr>) filesBase64,
      p_external_user_id = externalUserId s\<rparr>"

text \<open>
  The continuation of \<^verbatim>\<open>await Promise.all(...)\<close>: it runs once every promise has resolved
  (at once when there is no file), builds the body and enters \<^verbatim>\<open>callLLMAPI\<close>.
\<close>

definition resume_encoding :: "nat \<Rightarrow> state \<Rightarrow> state" where
  "resume_encoding aid s =
     (case map_of (acts s) aid of
        None \<Rightarrow> s
      | Some a \<Rightarrow>
          (case those (a_results a) of
             None \<Rightarrow> s
           | Some filesBase64 \<Rightarrow> callLLMAPI_start aid (build_data s a filesBase64) s))"

definition handleChatMessage :: "state \<Rightarrow> state" where
  "handleChatMessage s =
     (if isRequestInProgress s then abortCurrentRequest s
      else
        let question = trim (questionField s);
            selectedPrompt = agentSelectValue s;
            selectedDescription = agentSelectDescription s;
            specificDataValue = (if specific_enabled s then trim (specificDataField s) else [])
        in if question = [] \<and> selectedPrompt = [] then s\<lparr>calls := calls s @ [CallSwalFire]\<rparr>
           else
             let s1 = displayUserMessage question selectedDescription specificDataValue
                        selectedPrompt s;
                 s2 = setButtonToStop (showSpinner s1);
                 s3 = resetAgentSelect (s2\<lparr>questionField := []\<rparr>);
                 s4 = (if specific_enabled s3 then resetSpecificDataInput s3 else s3);
                 files = filePond s4;
                 a = \<lparr>a_question = question, a_selectedPrompt = selectedPrompt,
                      a_specificDataValue = specificDataValue, a_files = files,
                      a_results = map (\<lambda>f. None) files, a_phase = AwaitEncoding,
                      a_data = None\<rparr>
             in resume_encoding (nextId s4)
                  (s4\<lparr>acts := acts s4 @ [(nextId s4, a)], nextId := Suc (nextId s4)\<rparr>))"

section \<open>Events\<close>

text \<open>
  What the user and the browser can do between two turns of the event loop. Each handler
  runs to completion, with the continuations it makes ready, before the next event.
  \<^item> \<open>ClickSend\<close>: a click on the send button, or Enter in the question field;
    \<open>ClickStop\<close>: a click on the stop button.
  \<^item> \<open>TypeQuestion\<close>, \<open>TypeSpecificData\<close>: the user edits a field (the clear button of
    the structured field is the edit to the empty string); \<open>SelectPrompt\<close>: a click on an
    item of the prompt menu, with the value \<^verbatim>\<open>$(this).data('value')\<close> returns (jQuery converts
    the attribute's text) and the item's text; \<open>AddFile\<close>: a file is attached;
    \<open>ClickEdit\<close>: a click on the edit icon of the transcript entry at that position.
  \<^item> \<open>FileLoaded\<close>, \<open>FileFailed\<close>: the FileReader of a file of a call ends, with
    \<^verbatim>\<open>reader.result\<close> or with an error.
  \<^item> \<open>FetchResolved\<close>: the response arrives, with its \<^verbatim>\<open>ok\<close> flag; \<open>FetchFailed\<close>:
    \<^verbatim>\<open>fetch\<close> rejects with a network error; \<open>TimerFired\<close>: the deadline timer fires.
  \<^item> \<open>BodyParsed\<close>: \<^verbatim>\<open>response.json()\<close> resolves with the decoded value;
    \<open>BodyFailed\<close>: it rejects with the parser's error.
  An event for a call that is not waiting for it changes nothing. Handlers that only
  restyle the widgets are left out.
\<close>

datatype event =
    ClickSend
  | ClickStop
  | TypeQuestion string
  | SelectPrompt "json option" string
  | TypeSpecificData string
  | AddFile jsfile
  | ClickEdit nat
  | FileLoaded nat nat string
  | FileFailed nat nat
  | FetchResolved nat bool
  | FetchFailed nat string
  | TimerFired nat
  | BodyParsed nat json
  | BodyFailed nat string

definition file_loaded :: "nat \<Rightarrow> nat \<Rightarrow> string \<Rightarrow> state \<Rightarrow> state" where
  "file_loaded aid i result s =
     (case map_of (acts s) aid of
        None \<Rightarrow> s
      | Some a \<Rightarrow>
          if a_phase a = AwaitEncoding \<and> i < length (a_files a) \<and> a_results a ! i = None then
            resume_encoding aid
              (s\<lparr>acts := AList.update aid
                   (a\<lparr>a_results := (a_results a)[i := Some (toBase64 (a_files a ! i) result)]\<rparr>)
                   (acts s)\<rparr>)
          else s)"

text \<open>
  A FileReader error rejects \<^verbatim>\<open>Promise.all\<close>; the \<^verbatim>\<open>await\<close> stands before the \<^verbatim>\<open>try\<close>
  block, so the call of \<^verbatim>\<open>handleChatMessage\<close> ends there with a rejected promise and none
  of its handlers runs.
\<close>

definition file_failed :: "nat \<Rightarrow> nat \<Rightarrow> state \<Rightarrow> state" where
  "file_failed aid i s =
     (case map_of (acts s) aid of
        None \<Rightarrow> s
      | Some a \<Rightarrow>
          if a_phase a = AwaitEncoding \<and> i < length (a_files a) \<and> a_results a ! i = None
          then s\<lparr>acts := AList.delete aid (acts s)\<rparr>
          else s)"

definition fetch_resolved :: "nat \<Rightarrow> bool \<Rightarrow> state \<Rightarrow> state" where
  "fetch_resolved aid ok s =
     (case map_of (acts s) aid of
        None \<Rightarrow> s
      | Some a \<Rightarrow>
          if a_phase a = AwaitFetch
          then s\<lparr>acts := AList.update aid (a\<lparr>a_phase := AwaitBody ok\<rparr>) (acts s)\<rparr>
          else s)"

definition fetch_failed :: "nat \<Rightarrow> string \<Rightarrow> state \<Rightarrow> state" where
  "fetch_failed aid m s =
     (case map_of (acts s) aid of
        None \<Rightarrow> s
      | Some a \<Rightarrow>
          if a_phase a = AwaitFetch
          then (let (r, s1) = callLLMAPI_catch (Exn ''TypeError'' m) s in settle aid r s1)
          else s)"

definition timer_fired :: "nat \<Rightarrow> state \<Rightarrow> state" where
  "timer_fired aid s =
     (case map_of (acts s) aid of
        None \<Rightarrow> s
      | Some a \<Rightarrow> if a_phase a = AwaitFetch then deliver_abort aid s else s)"

definition body_parsed :: "nat \<Rightarrow> json \<Rightarrow> state \<Rightarrow> state" where
  "body_parsed aid v s =
     (case map_of (acts s) aid of
        None \<Rightarrow> s
      | Some a \<Rightarrow>
          (case a_phase a of
             AwaitBody ok \<Rightarrow> (let (r, s1) = callLLMAPI_body ok v s in settle aid r s1)
           | _ \<Rightarrow> s))"

definition body_failed :: "nat \<Rightarrow> string \<Rightarrow> state \<Rightarrow> state" where
  "body_failed aid m s =
     (case map_of (acts s) aid of
        None \<Rightarrow> s
      | Some a \<Rightarrow>
          (case a_phase a of
             AwaitBody ok \<Rightarrow>
               (let (r, s1) = callLLMAPI_catch (Exn ''SyntaxError'' m) s in settle aid r s1)
           | _ \<Rightarrow> s))"

text \<open>
  The text jQuery's \<^verbatim>\<open>.val(v)\<close> stores in an input: the empty string for \<^verbatim>\<open>null\<close> and
  \<^verbatim>\<open>undefined\<close>, the string conversion of any other value.
\<close>

definition val_text :: "json option \<Rightarrow> string" where
  "val_text v = (case v of None \<Rightarrow> [] | Some JNull \<Rightarrow> [] | Some j \<Rightarrow> js_string j)"

definition click_edit :: "nat \<Rightarrow> state \<Rightarrow> state" where
  "click_edit n s =
     (case nth_opt (transcript s) n of
        Some (UserMessage messageText (Some question)) \<Rightarrow> s\<lparr>questionField := question\<rparr>
      | _ \<Rightarrow> s)"

fun step :: "event \<Rightarrow> state \<Rightarrow> state" where
  "step ClickSend s = handleChatMessage s"
| "step ClickStop s = abortCurrentRequest s"
| "step (TypeQuestion q) s = s\<lparr>questionField := q\<rparr>"
| "step (SelectPrompt selectedPrompt description) s =
     s\<lparr>agentSelectValue := val_text selectedPrompt, agentSelectDescription := trim description\<rparr>"
| "step (TypeSpecificData v) s = s\<lparr>specificDataField := v\<rparr>"
| "step (AddFile f) s = s\<lparr>filePond := filePond s @ [f]\<rparr>"
| "step (ClickEdit n) s = click_edit n s"
| "step (FileLoaded aid i result) s = file_loaded aid i result s"
| "step (FileFailed aid i) s = file_failed aid i s"
| "step (FetchResolved aid ok) s = fetch_resolved aid ok s"
| "step (FetchFailed aid m) s = fetch_failed aid m s"
| "step (TimerFired aid) s = timer_fired aid s"
| "step (BodyParsed aid v) s = body_parsed aid v s"
| "step (BodyFailed aid m) s = body_failed aid m s"

text \<open>The page after a sequence of events, the first event first.\<close>

fun run :: "event list \<Rightarrow> state \<Rightarrow> state" where
  "run [] s = s"
| "run (e # es) s = run es (step e s)"

section \<open>Document validation cards\<close>

definition requiredFields :: "string list" where
  "requiredFields = [''document_name'', ''document_type'', ''causes'', ''is_valid'']"

text \<open>\<^verbatim>\<open>requiredFields.every(field => field in doc)\<close>, which stops at the first absent field.\<close>

fun every_field_in :: "string list \<Rightarrow> json \<Rightarrow> exn + bool" where
  "every_field_in [] doc = Inr True"
| "every_field_in (field # rest) doc =
     (case has_prop field doc of
        Inl e \<Rightarrow> Inl e
      | Inr present \<Rightarrow> if present then every_field_in rest doc else Inr False)"

text \<open>
  \<^verbatim>\<open>doc.causes.length > 0\<close> for a truthy \<^verbatim>\<open>doc.causes\<close>: an array or a string has its
  length; a number or \<^verbatim>\<open>true\<close> has none; an object has the value of its \<^verbatim>\<open>length\<close>
  property, if any, which the engine converts to a number.
\<close>

fun length_positive :: "platform \<Rightarrow> json \<Rightarrow> bool" where
  "length_positive pf (JArr xs) = (xs \<noteq> [])"
| "length_positive pf (JStr s) = (s \<noteq> [])"
| "length_positive pf (JObj kvs) =
     (case map_of kvs ''length'' of None \<Rightarrow> False | Some w \<Rightarrow> exceeds_zero pf w)"
| "length_positive pf v = False"

text \<open>
  The card of a record that has the four fields. \<^verbatim>\<open>doc.causes.map\<close> exists only on an
  array; elsewhere the call throws a TypeError.
\<close>

definition card_body_of :: "platform \<Rightarrow> bool \<Rightarrow> json option \<Rightarrow> exn + card_body" where
  "card_body_of pf valid causes =
     (if \<not> valid \<and> (case causes of None \<Rightarrow> False | Some c \<Rightarrow> truthy c \<and> length_positive pf c) then
        (case causes of
           Some (JArr xs) \<Rightarrow> Inr (RejectionReasons (map js_string xs))
         | _ \<Rightarrow> Inl (Exn ''TypeError'' ''doc.causes.map is not a function''))
      else if valid then Inr ValidNotice
      else Inr NoBody)"

definition js_string_opt :: "json option \<Rightarrow> string" where
  "js_string_opt v = (case v of None \<Rightarrow> ''undefined'' | Some j \<Rightarrow> js_string j)"

definition render_card :: "platform \<Rightarrow> json \<Rightarrow> exn + card" where
  "render_card pf doc =
     (let is_valid = truthy_opt (get_prop doc ''is_valid'');
          badge = (if is_valid then ''bg-success'' else ''bg-danger'')
      in case card_body_of pf is_valid (get_prop doc ''causes'') of
           Inl e \<Rightarrow> Inl e
         | Inr b \<Rightarrow>
             Inr (Card (js_string_opt (get_prop doc ''document_name'')) badge
                    (get_prop doc ''document_type'') b))"

text \<open>
  \<^verbatim>\<open>display_document_validation\<close> over the elements of \<^verbatim>\<open>document_list\<close>. An exception
  leaves the loop and the function (\<open>Inl\<close>).
\<close>

fun display_document_validation :: "json list \<Rightarrow> state \<Rightarrow> exn + state" where
  "display_document_validation [] s = Inr s"
| "display_document_validation (doc # document_list) s =
     (case every_field_in requiredFields doc of
        Inl e \<Rightarrow> Inl e
      | Inr complete \<Rightarrow>
          if \<not> complete then
            display_document_validation document_list
              (s\<lparr>console := console s @ [ConsoleWarn doc]\<rparr>)
          else
            (case render_card (browser s) doc of
               Inl e \<Rightarrow> Inl e
             | Inr c \<Rightarrow>
                 display_document_validation document_list
                   (displayBotMessage (DocumentSection c) s)))"

section \<open>Predicates and examples of the properties\<close>


text \<open>
  The array-like object \<^verbatim>\<open>{"0": "x", "length": 1}\<close>, as the answer of a response. jQuery 3
  takes an object with a length for a collection of nodes and treats its element, the string
  \<^verbatim>\<open>x\<close>, as a node: reading \<^verbatim>\<open>nodeType\<close> of the string's \<^verbatim>\<open>ownerDocument\<close>, which is
  undefined, throws a TypeError. The message is V8's.
\<close>

definition array_like :: json where
  "array_like = JObj [(''0'', JStr ''x''), (''length'', JNum ''1'')]"

definition append_error :: exn where
  "append_error =
     Exn ''TypeError''
       (''Cannot read properties of undefined (reading '' @ [CHR 0x27] @ ''nodeType'' @
        [CHR 0x27] @ '')'')"

text \<open>
  The platform of the examples. \<^verbatim>\<open>.append\<close> throws for \<open>array_like\<close>; the examples apply it
  to no other value than this one and strings, which it appends. The comparison \<^verbatim>\<open>w > 0\<close>
  is the engine's for a number and a boolean; the examples compare no value, and for the
  other values it is taken to fail.
\<close>

definition example_platform :: platform where
  "example_platform =
     \<lparr>append_throws = (\<lambda>v. if v = array_like then Some append_error else None),
      exceeds_zero = (\<lambda>w. case w of
                              JNum n \<Rightarrow> n \<noteq> ''0'' \<and> n \<noteq> ''NaN'' \<and> take 1 n \<noteq> ''-''
                            | JBool b \<Rightarrow> b
                            | _ \<Rightarrow> False)\<rparr>"

text \<open>
  The responses for which \<^verbatim>\<open>answerSection.append(answer)\<close> throws on page \<open>s\<close>: the decoded
  value is truthy and its \<^verbatim>\<open>answer\<close> is truthy and refused by \<^verbatim>\<open>.append\<close>.
\<close>

definition append_fails :: "state \<Rightarrow> json \<Rightarrow> bool" where
  "append_fails s responseData =
     (truthy responseData \<and>
      (case get_prop responseData ''answer'' of
         None \<Rightarrow> False
       | Some answer \<Rightarrow> truthy answer \<and> append_throws (browser s) answer \<noteq> None))"

text \<open>
  A configuration with the structured field enabled, one with it disabled, one whose
  transport key is \<^verbatim>\<open>prompt_name\<close> with the field disabled, and one whose transport key is
  \<^verbatim>\<open>__proto__\<close> with the field enabled.
\<close>

definition company_config :: config where
  "company_config = \<lparr>enabled = True, element_id = ''company'', data_key = ''company''\<rparr>"

definition disabled_config :: config where
  "disabled_config = \<lparr>enabled = False, element_id = ''company'', data_key = ''company''\<rparr>"

definition prompt_key_config :: config where
  "prompt_key_config = \<lparr>enabled = False, element_id = ''company'', data_key = ''prompt_name''\<rparr>"

definition proto_key_config :: config where
  "proto_key_config = \<lparr>enabled = True, element_id = ''company'', data_key = ''__proto__''\<rparr>"

text \<open>A page with the question \<^verbatim>\<open>Hello\<close> sent and the network call pending.\<close>

definition hello_in_flight :: state where
  "hello_in_flight = run [TypeQuestion ''Hello'', ClickSend] (init None ''u1'' example_platform)"

text \<open>
  What holds of a suspended call \<open>a\<close> with identifier \<open>aid\<close> on page \<open>s\<close>: the request is
  marked in progress; each promise that has resolved did so with the encoding of its own
  file; while the call waits for the encodings, some promise is pending, no body has been
  built and no controller exists; once the network call is issued, the controller kept is
  this call's, every promise has resolved, and the body is the one built from all of them.
\<close>

definition act_inv :: "state \<Rightarrow> nat \<Rightarrow> activation \<Rightarrow> bool" where
  "act_inv s aid a =
     (aid < nextId s \<and> isRequestInProgress s \<and>
      list_all2 (\<lambda>f r. r = None \<or> (\<exists>result. r = Some (toBase64 f result)))
        (a_files a) (a_results a) \<and>
      ((a_phase a = AwaitEncoding \<and> a_data a = None \<and> currentAbortController s = None \<and>
        those (a_results a) = None) \<or>
       (a_phase a \<noteq> AwaitEncoding \<and> currentAbortController s = Some aid \<and>
        (\<exists>filesBase64. those (a_results a) = Some filesBase64 \<and>
           a_data a = Some (build_data s a filesBase64)))))"

text \<open>
  The invariant of the page: the cancellation flag is clear between events, and there is
  at most one suspended call, which satisfies \<open>act_inv\<close>; with none, no controller is kept.
\<close>

definition page_inv :: "state \<Rightarrow> bool" where
  "page_inv s =
     (\<not> isManualAbort s \<and>
      ((acts s = [] \<and> currentAbortController s = None) \<or>
       (\<exists>aid a. acts s = [(aid, a)] \<and> act_inv s aid a)))"

text \<open>
  The frame a submission made on page \<open>s\<close> creates, and the page once the synchronous part
  of \<^verbatim>\<open>handleChatMessage\<close> has run (the message shown, the spinner and the stop mode set,
  the widgets cleared, the files read); \<open>handleChatMessage_submit\<close> below proves that this
  is what the function does on a valid submission.
\<close>

definition new_activation :: "state \<Rightarrow> activation" where
  "new_activation s =
     \<lparr>a_question = trim (questionField s), a_selectedPrompt = agentSelectValue s,
      a_specificDataValue = (if specific_enabled s then trim (specificDataField s) else []),
      a_files = filePond s, a_results = map (\<lambda>f. None) (filePond s),
      a_phase = AwaitEncoding, a_data = None\<rparr>"

definition submitted :: "state \<Rightarrow> state" where
  "submitted s =
     s\<lparr>transcript :=
         transcript (displayUserMessage (a_question (new_activation s)) (agentSelectDescription s)
           (a_specificDataValue (new_activation s)) (a_selectedPrompt (new_activation s)) s),
       spinner := True, stopMode := True, isRequestInProgress := True, questionField := [],
       agentSelectValue := [], agentSelectDescription := [],
       specificDataField := (if specific_enabled s then [] else specificDataField s),
       acts := acts s @ [(nextId s, new_activation s)], nextId := Suc (nextId s)\<rparr>"

text \<open>
  The same page once the response has arrived, with a success status and with an error
  status, the body still to be read.
\<close>

definition hello_answering :: state where
  "hello_answering = run [TypeQuestion ''Hello'', ClickSend, FetchResolved 0 True] (init None ''u1'' example_platform)"

definition hello_refused :: state where
  "hello_refused = run [TypeQuestion ''Hello'', ClickSend, FetchResolved 0 False] (init None ''u1'' example_platform)"

text \<open>
  A page with two files attached and the structured field filled, after the submission and
  the encoding of both files (the second file first): the network call is pending.
\<close>

definition upload_in_flight :: state where
  "upload_in_flight =
     run [TypeQuestion ''Hello'', TypeSpecificData '' ACME '', AddFile (File ''a.txt'' [1, 2]),
          AddFile (File ''b.txt'' [3]), ClickSend,
          FileLoaded 0 1 ''data:text/plain;base64,Aw=='',
          FileLoaded 0 0 ''data:text/plain;base64,AQI='']
       (init (Some company_config) ''u1'' example_platform)"

text \<open>The same submission with only the second file encoded so far.\<close>

definition upload_encoding :: state where
  "upload_encoding =
     run [TypeQuestion ''Hello'', TypeSpecificData '' ACME '', AddFile (File ''a.txt'' [1, 2]),
          AddFile (File ''b.txt'' [3]), ClickSend,
          FileLoaded 0 1 ''data:text/plain;base64,Aw=='']
       (init (Some company_config) ''u1'' example_platform)"


text \<open>
  A document record the renderer accepts without an exception: an object whose
  \<^verbatim>\<open>causes\<close>, when present, is an array. It is complete when it has the four required
  fields.
\<close>

definition record_ok :: "json \<Rightarrow> bool" where
  "record_ok doc =
     (case doc of
        JObj kvs \<Rightarrow> (case map_of kvs ''causes'' of
                       None \<Rightarrow> True
                     | Some (JArr xs) \<Rightarrow> True
                     | Some c \<Rightarrow> False)
      | _ \<Rightarrow> False)"

definition complete_record :: "json \<Rightarrow> bool" where
  "complete_record doc = list_all (\<lambda>k. get_prop doc k \<noteq> None) requiredFields"

text \<open>
  What the card of a record has to show: the name of the file, the type on the badge, and
  either the notice of validity (\<^verbatim>\<open>is_valid\<close> truthy) or the list of the causes of
  rejection (\<^verbatim>\<open>is_valid\<close> falsy and the array of causes not empty).
\<close>

definition shows_record :: "json \<Rightarrow> card \<Rightarrow> bool" where
  "shows_record doc c =
     (card_filename c = js_string_opt (get_prop doc ''document_name'')
      \<and> badge_text c = get_prop doc ''document_type''
      \<and> (if truthy_opt (get_prop doc ''is_valid'')
          then badge_style c = ''bg-success'' \<and> body_of c = ValidNotice
          else badge_style c = ''bg-danger''
             \<and> (case get_prop doc ''causes'' of
                   Some (JArr (x # xs)) \<Rightarrow> body_of c = RejectionReasons (map js_string (x # xs))
                 | _ \<Rightarrow> body_of c = NoBody)))"

text \<open>Three records: a valid one, one without \<^verbatim>\<open>is_valid\<close>, and a rejected one.\<close>

definition valid_doc :: json where
  "valid_doc = JObj [(''document_name'', JStr ''id.pdf''), (''document_type'', JStr ''ID''),
     (''causes'', JArr []), (''is_valid'', JBool True)]"

definition partial_doc :: json where
  "partial_doc = JObj [(''document_name'', JStr ''x.pdf''), (''document_type'', JStr ''ID''),
     (''causes'', JArr [])]"

definition rejected_doc :: json where
  "rejected_doc = JObj [(''document_name'', JStr ''bill.pdf''), (''document_type'', JStr ''Invoice''),
     (''causes'', JArr [JStr ''blurred'', JStr ''expired'']), (''is_valid'', JBool False)]"

text \<open>
  Two frames hold the same values of the form when their local constants \<^verbatim>\<open>question\<close>,
  \<^verbatim>\<open>selectedPrompt\<close> and \<^verbatim>\<open>specificDataValue\<close> agree.
\<close>

definition same_capture :: "activation \<Rightarrow> activation \<Rightarrow> bool" where
  "same_capture a' a =
     (a_question a' = a_question a \<and> a_selectedPrompt a' = a_selectedPrompt a
      \<and> a_specificDataValue a' = a_specificDataValue a)"

text \<open>
  Two pages about to submit, with the structured field enabled: one with the field filled
  and two files attached, one with a blank field and no file.
\<close>

definition upload_ready :: state where
  "upload_ready =
     run [TypeQuestion ''Hello'', TypeSpecificData '' ACME '', AddFile (File ''a.txt'' [1, 2]),
          AddFile (File ''b.txt'' [3])]
       (init (Some company_config) ''u1'' example_platform)"

definition blank_ready :: state where
  "blank_ready = run [TypeQuestion ''Hello'', TypeSpecificData ''   ''] (init (Some company_config) ''u1'' example_platform)"

text \<open>A page about to submit with the field filled but disabled in the configuration.\<close>

definition disabled_ready :: state where
  "disabled_ready = run [TypeQuestion ''Hello'', TypeSpecificData ''ACME''] (init (Some disabled_config) ''u1'' example_platform)"



text \<open>
  Two pages with a request sent: one configured with \<open>prompt_key_config\<close>, one with
  \<open>proto_key_config\<close> and the structured field filled.
\<close>

definition prompt_key_in_flight :: state where
  "prompt_key_in_flight =
     run [TypeQuestion ''Hello'', TypeSpecificData ''ACME'', ClickSend]
       (init (Some prompt_key_config) ''u1'' example_platform)"

definition proto_key_in_flight :: state where
  "proto_key_in_flight =
     run [TypeQuestion ''Hello'', TypeSpecificData ''ACME'', ClickSend]
       (init (Some proto_key_config) ''u1'' example_platform)"

section \<open>Unfolding rules\<close>

lemmas ui_defs = displayBotMessage_def displayUserMessage_def showSpinner_def hideSpinner_def
  setButtonToStop_def setButtonToSend_def toggleSendStopButtons_def specific_enabled_def
  resetAgentSelect_def resetSpecificDataInput_def removeFiles_def

lemmas settle_defs = settle_def finally_block_def catch_block_def on_response_def
  callLLMAPI_catch_def callLLMAPI_body_def deliver_abort_def abort_error_def null_read_error_def

lemmas submit_defs = handleChatMessage_def resume_encoding_def callLLMAPI_start_def
  build_data_def build_client_data_def assign_def abortCurrentRequest_def toBase64_def

lemmas event_defs = file_loaded_def file_failed_def fetch_resolved_def fetch_failed_def
  timer_fired_def body_parsed_def body_failed_def click_edit_def

section \<open>The example pages, evaluated\<close>

lemma hello_in_flight_eval:
  "hello_in_flight =
     \<lparr>browser = example_platform, specificDataConfig = None, externalUserId = ''u1'',
      currentAbortController = Some 0,
      isRequestInProgress = True, isManualAbort = False, questionField = [],
      agentSelectValue = [], agentSelectDescription = [], specificDataField = [],
      filePond = [], transcript = [UserMessage ''Hello'' (Some ''Hello'')], spinner = True,
      stopMode = True, sendContainerVisible = True, stopContainerVisible = False, calls = [],
      console = [],
      acts = [(0, \<lparr>a_question = ''Hello'', a_selectedPrompt = [], a_specificDataValue = [],
                    a_files = [], a_results = [], a_phase = AwaitFetch,
                    a_data = Some \<lparr>p_question = ''Hello'', p_prompt_name = [],
                      p_client_data = [''prompt_name'' \<mapsto> [], ''question'' \<mapsto> ''Hello''],
                      p_files = [], p_external_user_id = ''u1''\<rparr>\<rparr>)],
      nextId = 1\<rparr>"
  by (simp add: hello_in_flight_def init_def ui_defs submit_defs trim_def is_space1_def
      is_space2_def is_space3_def Let_def)


lemmas eval_defs = init_def ui_defs submit_defs event_defs settle_defs trim_def is_space1_def
  is_space2_def is_space3_def Let_def company_config_def nth_opt_def

lemma hello_answering_eval:
  "acts hello_answering =
     [(0, \<lparr>a_question = ''Hello'', a_selectedPrompt = [], a_specificDataValue = [],
            a_files = [], a_results = [], a_phase = AwaitBody True,
            a_data = Some \<lparr>p_question = ''Hello'', p_prompt_name = [],
              p_client_data = [''prompt_name'' \<mapsto> [], ''question'' \<mapsto> ''Hello''],
              p_files = [], p_external_user_id = ''u1''\<rparr>\<rparr>)]"
  "transcript hello_answering = [UserMessage ''Hello'' (Some ''Hello'')]"
  "calls hello_answering = []"
  "browser hello_answering = example_platform"
  by (simp_all add: hello_answering_def eval_defs)

lemma hello_refused_eval:
  "acts hello_refused =
     [(0, \<lparr>a_question = ''Hello'', a_selectedPrompt = [], a_specificDataValue = [],
            a_files = [], a_results = [], a_phase = AwaitBody False,
            a_data = Some \<lparr>p_question = ''Hello'', p_prompt_name = [],
              p_client_data = [''prompt_name'' \<mapsto> [], ''question'' \<mapsto> ''Hello''],
              p_files = [], p_external_user_id = ''u1''\<rparr>\<rparr>)]"
  "transcript hello_refused = [UserMessage ''Hello'' (Some ''Hello'')]"
  "calls hello_refused = []"
  by (simp_all add: hello_refused_def eval_defs)

lemma upload_in_flight_eval:
  "acts upload_in_flight =
     [(0, \<lparr>a_question = ''Hello'', a_selectedPrompt = [], a_specificDataValue = ''ACME'',
            a_files = [File ''a.txt'' [1, 2], File ''b.txt'' [3]],
            a_results = [Some (''a.txt'', Some ''AQI=''), Some (''b.txt'', Some ''Aw=='')],
            a_phase = AwaitFetch,
            a_data = Some \<lparr>p_question = ''Hello'', p_prompt_name = [],
              p_client_data = [''prompt_name'' \<mapsto> [], ''question'' \<mapsto> ''Hello'',
                               ''company'' \<mapsto> ''ACME''],
              p_files = [\<lparr>filename = ''a.txt'', content = Some ''AQI=''\<rparr>,
                         \<lparr>filename = ''b.txt'', content = Some ''Aw==''\<rparr>],
              p_external_user_id = ''u1''\<rparr>\<rparr>)]"
  "filePond upload_in_flight = [File ''a.txt'' [1, 2], File ''b.txt'' [3]]"
  "transcript upload_in_flight = [UserMessage ''ACME: Hello'' (Some ''Hello'')]"
  by (simp_all add: upload_in_flight_def eval_defs)

lemma upload_encoding_eval:
  "acts upload_encoding =
     [(0, \<lparr>a_question = ''Hello'', a_selectedPrompt = [], a_specificDataValue = ''ACME'',
            a_files = [File ''a.txt'' [1, 2], File ''b.txt'' [3]],
            a_results = [None, Some (''b.txt'', Some ''Aw=='')],
            a_phase = AwaitEncoding, a_data = None\<rparr>)]"
  "currentAbortController upload_encoding = None"
  "isRequestInProgress upload_encoding"
  "calls upload_encoding = []"
  by (simp_all add: upload_encoding_def eval_defs)


lemma run_snoc: "run (es @ [e]) s = step e (run es s)"
  by (induction es arbitrary: s) simp_all

section \<open>The invariant of the page\<close>

text \<open>
  Every event keeps \<open>page_inv\<close>; the proof goes event by event, on a page with no suspended
  call and on a page with one.
\<close>

lemma page_inv_cases:
  assumes "page_inv s"
  obtains (idle) "acts s = []" "currentAbortController s = None" "\<not> isManualAbort s"
  | (busy) aid a where "acts s = [(aid, a)]" "act_inv s aid a" "\<not> isManualAbort s"
  using assms unfolding page_inv_def
  by auto

lemma page_inv_idle:
  "\<not> isManualAbort s \<Longrightarrow> acts s = [] \<Longrightarrow> currentAbortController s = None \<Longrightarrow> page_inv s"
  by (simp add: page_inv_def)

lemma page_inv_busy:
  "\<not> isManualAbort s \<Longrightarrow> acts s = [(aid, a)] \<Longrightarrow> act_inv s aid a \<Longrightarrow> page_inv s"
  by (simp add: page_inv_def)

lemma page_inv_init: "page_inv (init cfg ext pf)"
  by (simp add: page_inv_def init_def)

lemma act_inv_frame:
  assumes "nextId s' = nextId s" and "isRequestInProgress s' = isRequestInProgress s"
    and "currentAbortController s' = currentAbortController s"
    and "specificDataConfig s' = specificDataConfig s" and "externalUserId s' = externalUserId s"
  shows "act_inv s' aid a = act_inv s aid a"
proof -
  have "build_data s' = build_data s"
    using assms by (intro ext) (simp add: build_data_def)
  then show ?thesis
    using assms by (simp add: act_inv_def)
qed

lemma page_inv_frame:
  assumes "page_inv s" and "acts s' = acts s" and "isManualAbort s' = isManualAbort s"
    and "nextId s' = nextId s" and "isRequestInProgress s' = isRequestInProgress s"
    and "currentAbortController s' = currentAbortController s"
    and "specificDataConfig s' = specificDataConfig s" and "externalUserId s' = externalUserId s"
  shows "page_inv s'"
  using assms act_inv_frame [of s' s] by (auto simp add: page_inv_def)

lemma inv_click_edit: "page_inv s \<Longrightarrow> page_inv (click_edit n s)"
  by (erule page_inv_frame) (simp_all add: click_edit_def split: option.splits entry.splits)

lemma settle_fields:
  "acts (settle aid r s) = AList.delete aid (acts s)"
  "currentAbortController (settle aid r s) = None"
  "isRequestInProgress (settle aid r s) = False"
  "spinner (settle aid r s) = False"
  "stopMode (settle aid r s) = False"
  "filePond (settle aid r s) = []"
  "nextId (settle aid r s) = nextId s"
  "specificDataConfig (settle aid r s) = specificDataConfig s"
  "externalUserId (settle aid r s) = externalUserId s"
  "browser (settle aid r s) = browser s"
  "isManualAbort (settle aid (Inl e) s) = (isManualAbort s \<and> exn_name e \<noteq> ''AbortError'')"
  "\<not> isManualAbort s \<Longrightarrow> \<not> isManualAbort (settle aid r s)"
  by (simp_all add: settle_def finally_block_def catch_block_def on_response_def ui_defs Let_def
      split: sum.splits option.splits)

lemma inv_step_simple:
  assumes "page_inv s"
  shows "page_inv (step (TypeQuestion q) s)" and "page_inv (step (SelectPrompt v d) s)"
    and "page_inv (step (TypeSpecificData x) s)" and "page_inv (step (AddFile f) s)"
    and "page_inv (step (ClickEdit n) s)"
  using assms
  by (auto intro: inv_click_edit page_inv_frame [of s])

lemma inv_settle:
  assumes "acts s = [(aid, a)]"
    and "isManualAbort s \<Longrightarrow> \<exists>e. r = Inl e \<and> exn_name e = ''AbortError''"
  shows "page_inv (settle aid r s)"
proof (cases "isManualAbort s")
  case True
  then obtain e where "r = Inl e" "exn_name e = ''AbortError''"
    using assms(2) by blast
  then show ?thesis
    using assms(1) by (intro page_inv_idle) (simp_all add: settle_fields)
next
  case False
  then show ?thesis
    using assms(1) by (intro page_inv_idle) (simp_all add: settle_fields)
qed

lemma callLLMAPI_catch_fields:
  "acts (snd (callLLMAPI_catch e s)) = acts s"
  "isManualAbort (snd (callLLMAPI_catch e s)) = isManualAbort s"
  "fst (callLLMAPI_catch e s) = (if exn_name e = ''AbortError'' then Inl e else Inr JNull)"
  by (simp_all add: callLLMAPI_catch_def displayBotMessage_def)

lemma callLLMAPI_body_fields:
  "acts (snd (callLLMAPI_body ok v s)) = acts s"
  "isManualAbort (snd (callLLMAPI_body ok v s)) = isManualAbort s"
  "\<exists>w. fst (callLLMAPI_body ok v s) = Inr w"
  by (simp_all add: callLLMAPI_body_def callLLMAPI_catch_def displayBotMessage_def
      null_read_error_def)

lemma inv_fetch_failed:
  assumes "page_inv s"
  shows "page_inv (fetch_failed aid m s)"
  using assms
proof (cases rule: page_inv_cases)
  case idle
  then show ?thesis using assms by (simp add: fetch_failed_def)
next
  case (busy aid' a)
  show ?thesis
  proof (cases "aid = aid' \<and> a_phase a = AwaitFetch")
    case True
    then show ?thesis
      using busy
      by (auto simp add: fetch_failed_def split_beta callLLMAPI_catch_fields intro!: inv_settle)
  next
    case False
    then show ?thesis using busy assms by (auto simp add: fetch_failed_def)
  qed
qed

lemma inv_body_failed:
  assumes "page_inv s"
  shows "page_inv (body_failed aid m s)"
  using assms
proof (cases rule: page_inv_cases)
  case idle
  then show ?thesis using assms by (simp add: body_failed_def)
next
  case (busy aid' a)
  then show ?thesis
    using assms
    by (auto simp add: body_failed_def split_beta callLLMAPI_catch_fields
        intro!: inv_settle split: phase.splits)
qed

lemma inv_body_parsed:
  assumes "page_inv s"
  shows "page_inv (body_parsed aid v s)"
  using assms
proof (cases rule: page_inv_cases)
  case idle
  then show ?thesis using assms by (simp add: body_parsed_def)
next
  case (busy aid' a)
  then show ?thesis
    using assms
    by (auto simp add: body_parsed_def split_beta callLLMAPI_body_fields
        intro!: inv_settle split: phase.splits)
qed

lemma inv_deliver_abort:
  assumes "acts s = [(aid, a)]" and "a_phase a \<noteq> AwaitEncoding"
  shows "page_inv (deliver_abort aid s)"
  using assms
  by (auto simp add: deliver_abort_def split_beta callLLMAPI_catch_fields abort_error_def
      intro!: inv_settle)

lemma inv_timer_fired:
  assumes "page_inv s"
  shows "page_inv (timer_fired aid s)"
  using assms
proof (cases rule: page_inv_cases)
  case idle
  then show ?thesis using assms by (simp add: timer_fired_def)
next
  case (busy aid' a)
  then show ?thesis
    using assms
    by (auto simp add: timer_fired_def intro!: inv_deliver_abort)
qed

lemma inv_abortCurrentRequest:
  assumes "page_inv s"
  shows "page_inv (abortCurrentRequest s)"
  using assms
proof (cases rule: page_inv_cases)
  case idle
  then show ?thesis using assms by (simp add: abortCurrentRequest_def)
next
  case (busy aid a)
  show ?thesis
  proof (cases "a_phase a = AwaitEncoding")
    case True
    then show ?thesis
      using busy assms by (simp add: abortCurrentRequest_def act_inv_def)
  next
    case False
    then have "currentAbortController s = Some aid" "isRequestInProgress s"
      using busy by (auto simp add: act_inv_def)
    then show ?thesis
      using busy False
      by (auto simp add: abortCurrentRequest_def ui_defs intro!: inv_deliver_abort)
  qed
qed

lemma inv_file_failed:
  assumes "page_inv s"
  shows "page_inv (file_failed aid i s)"
  using assms
proof (cases rule: page_inv_cases)
  case idle
  then show ?thesis using assms by (simp add: file_failed_def)
next
  case (busy aid' a)
  then show ?thesis
    using assms
    by (auto simp add: file_failed_def act_inv_def intro!: page_inv_idle)
qed

lemma inv_fetch_resolved:
  assumes "page_inv s"
  shows "page_inv (fetch_resolved aid ok s)"
  using assms
proof (cases rule: page_inv_cases)
  case idle
  then show ?thesis using assms by (simp add: fetch_resolved_def)
next
  case (busy aid' a)
  show ?thesis
  proof (cases "aid = aid' \<and> a_phase a = AwaitFetch")
    case True
    then show ?thesis
      using busy
      by (intro page_inv_busy [where aid = aid and a = "a\<lparr>a_phase := AwaitBody ok\<rparr>"])
         (auto simp add: fetch_resolved_def act_inv_def build_data_def)
  next
    case False
    then show ?thesis using busy assms by (auto simp add: fetch_resolved_def)
  qed
qed

lemma those_all_pending: "those (map (\<lambda>f. None) fs) = (if fs = [] then Some [] else None)"
  by (cases fs) simp_all

lemma list_all2_all_pending:
  "list_all2 (\<lambda>f r. r = None \<or> (\<exists>result. r = Some (toBase64 f result))) fs (map (\<lambda>f. None) fs)"
  by (induction fs) simp_all

lemma inv_resume_encoding:
  assumes "acts s = [(aid, a)]" and "a_phase a = AwaitEncoding" and "a_data a = None"
    and "aid < nextId s" and "isRequestInProgress s" and "\<not> isManualAbort s"
    and "currentAbortController s = None"
    and "list_all2 (\<lambda>f r. r = None \<or> (\<exists>result. r = Some (toBase64 f result)))
           (a_files a) (a_results a)"
  shows "page_inv (resume_encoding aid s)"
proof (cases "those (a_results a)")
  case None
  then show ?thesis
    using assms
    by (intro page_inv_busy [where aid = aid and a = a])
       (auto simp add: resume_encoding_def act_inv_def)
next
  case (Some filesBase64)
  then show ?thesis
    using assms
    by (intro page_inv_busy [where aid = aid
          and a = "a\<lparr>a_phase := AwaitFetch, a_data := Some (build_data s a filesBase64)\<rparr>"])
       (auto simp add: resume_encoding_def callLLMAPI_start_def act_inv_def build_data_def)
qed

lemma list_all2_update_right:
  "list_all2 P xs ys \<Longrightarrow> i < length xs \<Longrightarrow> P (xs ! i) y \<Longrightarrow> list_all2 P xs (ys[i := y])"
  by (simp add: list_all2_conv_all_nth nth_list_update)

lemma inv_file_loaded:
  assumes "page_inv s"
  shows "page_inv (file_loaded aid i result s)"
  using assms
proof (cases rule: page_inv_cases)
  case idle
  then show ?thesis using assms by (simp add: file_loaded_def)
next
  case (busy aid' a)
  show ?thesis
  proof (cases "aid = aid' \<and> a_phase a = AwaitEncoding \<and> i < length (a_files a) \<and> a_results a ! i = None")
    case True
    have "list_all2 (\<lambda>f r. r = None \<or> (\<exists>result. r = Some (toBase64 f result))) (a_files a)
            ((a_results a)[i := Some (toBase64 (a_files a ! i) result)])"
      using busy True by (intro list_all2_update_right) (auto simp add: act_inv_def)
    then show ?thesis
      using busy True
      by (auto simp add: file_loaded_def act_inv_def
          intro!: inv_resume_encoding [where a = "a\<lparr>a_results := (a_results a)[i := Some (toBase64 (a_files a ! i) result)]\<rparr>"])
  next
    case False
    then show ?thesis using busy assms by (auto simp add: file_loaded_def)
  qed
qed

lemma handleChatMessage_submit:
  assumes "\<not> isRequestInProgress s"
    and "\<not> (trim (questionField s) = [] \<and> agentSelectValue s = [])"
  shows "handleChatMessage s = resume_encoding (nextId s) (submitted s)"
  using assms
  by (auto simp add: handleChatMessage_def submitted_def new_activation_def ui_defs Let_def
      split_beta)

lemma inv_handleChatMessage:
  assumes "page_inv s"
  shows "page_inv (handleChatMessage s)"
proof (cases "isRequestInProgress s")
  case True
  then show ?thesis
    using assms by (simp add: handleChatMessage_def inv_abortCurrentRequest)
next
  case False
  then have idle: "acts s = []" "currentAbortController s = None" "\<not> isManualAbort s"
    using assms by (auto simp add: page_inv_def act_inv_def)
  show ?thesis
  proof (cases "trim (questionField s) = [] \<and> agentSelectValue s = []")
    case True
    then show ?thesis
      using False idle by (auto simp add: handleChatMessage_def Let_def intro!: page_inv_idle)
  next
    case valid: False
    have "page_inv (resume_encoding (nextId s) (submitted s))"
      using idle
      by (intro inv_resume_encoding [where a = "new_activation s"])
         (simp_all add: submitted_def new_activation_def list_all2_all_pending)
    then show ?thesis
      using False valid by (simp add: handleChatMessage_submit)
  qed
qed

lemma inv_step: "page_inv s \<Longrightarrow> page_inv (step e s)"
  by (cases e)
     (simp_all add: inv_step_simple [simplified] inv_handleChatMessage inv_abortCurrentRequest
        inv_click_edit inv_file_loaded inv_file_failed inv_fetch_resolved inv_fetch_failed
        inv_timer_fired inv_body_parsed inv_body_failed)

lemma inv_run: "page_inv s \<Longrightarrow> page_inv (run es s)"
  by (induction es arbitrary: s) (simp_all add: inv_step)


lemma inv_reachable: "page_inv (run es (init cfg ext pf))"
  by (simp add: inv_run page_inv_init)

section \<open>Events on a page with a request in flight\<close>

lemma reachable_busy:
  assumes "s = run es (init cfg ext pf)" and "(aid, a) \<in> set (acts s)"
  shows "acts s = [(aid, a)]" and "act_inv s aid a" and "\<not> isManualAbort s"
    and "map_of (acts s) aid = Some a"
proof -
  have "page_inv s" using assms(1) by (simp add: inv_reachable)
  then show "acts s = [(aid, a)]" and "act_inv s aid a" and "\<not> isManualAbort s"
    using assms(2) by (auto simp add: page_inv_def)
  then show "map_of (acts s) aid = Some a" by simp
qed


lemma settle_returned:
  "calls (settle aid (Inr v) s) =
     calls s @
     (if append_fails s v
      then [CallHideSpinner, CallSetButtonToSend, CallHideSpinner, CallSetButtonToSend]
      else [CallHideSpinner, CallSetButtonToSend])"
  "\<not> truthy_opt (get_prop v ''answer'') \<Longrightarrow> transcript (settle aid (Inr v) s) = transcript s"
  "\<not> truthy v \<Longrightarrow> transcript (settle aid (Inr v) s) = transcript s"
  by (auto simp add: settle_def finally_block_def catch_block_def on_response_def ui_defs Let_def
      append_fails_def truthy_opt_def split: option.splits)

lemma settle_answer:
  "transcript (settle aid (Inr v) s) =
     transcript s @
     (if truthy v then
        (case get_prop v ''answer'' of
           None \<Rightarrow> []
         | Some answer \<Rightarrow>
             if truthy answer then
               (case append_throws (browser s) answer of
                  None \<Rightarrow> [AnswerSection answer]
                | Some e \<Rightarrow>
                    [if exn_name e = ''AbortError''
                     then (if isManualAbort s then abortMessage else timeoutError)
                     else ErrorSection ''error-section alert alert-danger''
                            (msg_connection (exn_message e))])
             else [])
      else [])"
  by (simp add: settle_def finally_block_def catch_block_def on_response_def ui_defs Let_def
      split: option.splits)


lemma deliver_abort_effects:
  assumes "map_of (acts s) aid = Some a" and "a_phase a \<noteq> AwaitEncoding"
  shows "deliver_abort aid s = settle aid (Inl abort_error) s"
  using assms by (simp add: deliver_abort_def callLLMAPI_catch_def abort_error_def)

lemma abortCurrentRequest_busy:
  assumes "map_of (acts s) aid = Some a" and "a_phase a \<noteq> AwaitEncoding"
    and "currentAbortController s = Some aid" and "isRequestInProgress s"
  shows "abortCurrentRequest s =
     settle aid (Inl abort_error)
       (hideSpinner (toggleSendStopButtons False (s\<lparr>isManualAbort := True\<rparr>)))"
  using assms
  by (simp add: abortCurrentRequest_def deliver_abort_effects [where a = a] ui_defs)

lemma nextId_abortCurrentRequest: "nextId (abortCurrentRequest s) = nextId s"
  by (simp add: abortCurrentRequest_def deliver_abort_def split_beta settle_fields ui_defs
      callLLMAPI_catch_def abort_error_def split: option.splits)

lemma callLLMAPI_body_returns:
  "fst (callLLMAPI_body ok v s) = Inr (if ok then v else JNull)"
  "calls (snd (callLLMAPI_body ok v s)) = calls s"
  "browser (snd (callLLMAPI_body ok v s)) = browser s"
  by (simp_all add: callLLMAPI_body_def callLLMAPI_catch_def displayBotMessage_def
      null_read_error_def)

lemma body_parsed_busy:
  assumes "map_of (acts s) aid = Some a" and "a_phase a = AwaitBody ok"
  shows "body_parsed aid v s =
     settle aid (Inr (if ok then v else JNull)) (snd (callLLMAPI_body ok v s))"
  using assms by (simp add: body_parsed_def split_beta callLLMAPI_body_returns)

lemma body_failed_busy:
  assumes "map_of (acts s) aid = Some a" and "a_phase a = AwaitBody ok"
  shows "body_failed aid m s =
     settle aid (Inr JNull)
       (displayBotMessage (ErrorSection ''error-section'' (''<p>'' @ msg_connection m @ ''</p>'')) s)"
  using assms by (simp add: body_failed_def callLLMAPI_catch_def)

lemma fetch_failed_busy:
  assumes "map_of (acts s) aid = Some a" and "a_phase a = AwaitFetch"
  shows "fetch_failed aid m s =
     settle aid (Inr JNull)
       (displayBotMessage (ErrorSection ''error-section'' (''<p>'' @ msg_connection m @ ''</p>'')) s)"
  using assms by (simp add: fetch_failed_def callLLMAPI_catch_def)

lemma timer_fired_busy:
  assumes "map_of (acts s) aid = Some a" and "a_phase a = AwaitFetch"
  shows "timer_fired aid s = settle aid (Inl abort_error) s"
  using assms by (simp add: timer_fired_def deliver_abort_effects [where a = a])


lemma those_Some_map: "those xs = Some rs \<Longrightarrow> xs = map Some rs"
  by (induction xs arbitrary: rs) (auto split: option.splits)

section \<open>Single flight\<close>

text \<open>
  C1. On every page reached from the page load by any sequence of events there is at most
  one suspended call of \<^verbatim>\<open>handleChatMessage\<close>, whether it waits for the encodings or for
  the network. While there is one, a click on Send does exactly what a click on Stop does
  (\<^verbatim>\<open>abortCurrentRequest\<close>), and it starts no call: no new identifier is taken and there
  is still at most one call afterwards.
\<close>

theorem C1_at_most_one_request_in_flight:
  assumes "s = run es (init cfg ext pf)"
  shows "length (acts s) \<le> 1
     \<and> (acts s \<noteq> [] \<longrightarrow>
          step ClickSend s = step ClickStop s
          \<and> nextId (step ClickSend s) = nextId s
          \<and> length (acts (step ClickSend s)) \<le> 1)"
proof -
  have inv: "page_inv s" using assms by (simp add: inv_reachable)
  then have one: "length (acts s) \<le> 1" by (auto simp add: page_inv_def)
  have "page_inv (step ClickSend s)" using inv by (rule inv_step)
  then have after: "length (acts (step ClickSend s)) \<le> 1" by (auto simp add: page_inv_def)
  have "isRequestInProgress s" if "acts s \<noteq> []"
    using inv that by (auto simp add: page_inv_def act_inv_def)
  then have "step ClickSend s = step ClickStop s \<and> nextId (step ClickSend s) = nextId s"
    if "acts s \<noteq> []"
    using that by (simp add: handleChatMessage_def nextId_abortCurrentRequest)
  with one after show ?thesis by blast
qed

text \<open>
  An instance: the page with the question Hello in flight.
\<close>

theorem C1_witness:
  "length (acts hello_in_flight) \<le> 1
   \<and> acts hello_in_flight \<noteq> []
   \<and> step ClickSend hello_in_flight = step ClickStop hello_in_flight
   \<and> nextId (step ClickSend hello_in_flight) = nextId hello_in_flight
   \<and> length (acts (step ClickSend hello_in_flight)) \<le> 1"
proof -
  have "acts hello_in_flight \<noteq> []" by (simp add: hello_in_flight_eval)
  with C1_at_most_one_request_in_flight [OF hello_in_flight_def] show ?thesis by blast
qed

section \<open>Cleanup\<close>




section \<open>The cancellation flag\<close>




section \<open>The join on the encodings\<close>

text \<open>
  C5. On every page reached from the page load: while a call waits for the encodings, no
  body has been built and no network call issued (no controller exists); once the network
  call is issued, every promise of the call has resolved, each with the encoding of its own
  file, and the \<^verbatim>\<open>files\<close> array of the body holds, in order, one entry for each file the
  call read from the widget, made from that file's encoding. With no file the array is
  empty.
\<close>

theorem C5_body_holds_every_encoded_file:
  assumes "s = run es (init cfg ext pf)" and "(aid, a) \<in> set (acts s)"
  shows "(a_phase a = AwaitEncoding \<longrightarrow> a_data a = None \<and> currentAbortController s = None)
     \<and> (a_phase a \<noteq> AwaitEncoding \<longrightarrow>
          (\<exists>d filesBase64.
              a_data a = Some d
            \<and> a_results a = map Some filesBase64
            \<and> list_all2 (\<lambda>f fileData. \<exists>result. fileData = toBase64 f result) (a_files a) filesBase64
            \<and> p_files d = map (\<lambda>fileData. \<lparr>filename = fst fileData, content = snd fileData\<rparr>) filesBase64
            \<and> length (p_files d) = length (a_files a)))"
proof -
  note busy = reachable_busy [OF assms]
  have enc: "a_data a = None \<and> currentAbortController s = None" if "a_phase a = AwaitEncoding"
    using busy(2) that by (auto simp add: act_inv_def)
  have sent: "\<exists>d filesBase64.
        a_data a = Some d
      \<and> a_results a = map Some filesBase64
      \<and> list_all2 (\<lambda>f fileData. \<exists>result. fileData = toBase64 f result) (a_files a) filesBase64
      \<and> p_files d = map (\<lambda>fileData. \<lparr>filename = fst fileData, content = snd fileData\<rparr>) filesBase64
      \<and> length (p_files d) = length (a_files a)"
    if issued: "a_phase a \<noteq> AwaitEncoding"
  proof -
    obtain rs where rs: "those (a_results a) = Some rs" "a_data a = Some (build_data s a rs)"
      using busy(2) issued by (auto simp add: act_inv_def)
    then have res: "a_results a = map Some rs" by (simp add: those_Some_map)
    have "list_all2 (\<lambda>f r. r = None \<or> (\<exists>result. r = Some (toBase64 f result)))
            (a_files a) (map Some rs)"
      using busy(2) res by (simp add: act_inv_def)
    then have all: "list_all2 (\<lambda>f fileData. \<exists>result. fileData = toBase64 f result) (a_files a) rs"
      by (simp add: list_all2_map2)
    then have "length rs = length (a_files a)" by (simp add: list_all2_lengthD)
    with rs(2) res all show ?thesis by (simp add: build_data_def)
  qed
  from enc sent show ?thesis by blast
qed

text \<open>
  Instances: the submission with two files, once both are encoded and while one is not.
\<close>

theorem C5_witness:
  "(0, snd (hd (acts upload_in_flight))) \<in> set (acts upload_in_flight)
   \<and> a_phase (snd (hd (acts upload_in_flight))) \<noteq> AwaitEncoding
   \<and> (\<exists>d. a_data (snd (hd (acts upload_in_flight))) = Some d
        \<and> p_files d = [\<lparr>filename = ''a.txt'', content = Some ''AQI=''\<rparr>,
                        \<lparr>filename = ''b.txt'', content = Some ''Aw==''\<rparr>]
        \<and> length (p_files d) = length (a_files (snd (hd (acts upload_in_flight)))))
   \<and> (0, snd (hd (acts upload_encoding))) \<in> set (acts upload_encoding)
   \<and> a_phase (snd (hd (acts upload_encoding))) = AwaitEncoding
   \<and> a_data (snd (hd (acts upload_encoding))) = None
   \<and> currentAbortController upload_encoding = None"
proof -
  have 1: "(0, snd (hd (acts upload_in_flight))) \<in> set (acts upload_in_flight)"
    and 2: "a_phase (snd (hd (acts upload_in_flight))) \<noteq> AwaitEncoding"
    and 3: "(0, snd (hd (acts upload_encoding))) \<in> set (acts upload_encoding)"
    and 4: "a_phase (snd (hd (acts upload_encoding))) = AwaitEncoding"
    by (simp_all add: upload_in_flight_eval upload_encoding_eval)
  show ?thesis
    using C5_body_holds_every_encoded_file [OF upload_in_flight_def 1]
      C5_body_holds_every_encoded_file [OF upload_encoding_def 3] 1 2 3 4
    by (auto simp add: upload_in_flight_eval)
qed

section \<open>The attachments after the request\<close>

text \<open>
  C9. On every page reached from the page load, whichever way the request in flight ends
  (the body read after a success or an error status, the body unreadable, the network
  failing, the deadline expiring, the user cancelling with Stop or with Send), the widget
  holds no file afterwards, whatever it held before.
\<close>

theorem C9_files_removed_on_every_outcome:
  assumes "s = run es (init cfg ext pf)" and "(aid, a) \<in> set (acts s)"
  shows "(a_phase a = AwaitBody ok \<longrightarrow>
            filePond (step (BodyParsed aid v) s) = [] \<and> filePond (step (BodyFailed aid m) s) = [])
     \<and> (a_phase a = AwaitFetch \<longrightarrow>
            filePond (step (FetchFailed aid m) s) = [] \<and> filePond (step (TimerFired aid) s) = [])
     \<and> (a_phase a \<noteq> AwaitEncoding \<longrightarrow>
            filePond (step ClickStop s) = [] \<and> filePond (step ClickSend s) = [])"
proof -
  note busy = reachable_busy [OF assms]
  have body: "filePond (step (BodyParsed aid v) s) = [] \<and> filePond (step (BodyFailed aid m) s) = []"
    if "a_phase a = AwaitBody ok"
    using busy(4) that
    by (simp add: body_parsed_busy [where a = a] body_failed_busy [where a = a] settle_fields)
  have fetch: "filePond (step (FetchFailed aid m) s) = [] \<and> filePond (step (TimerFired aid) s) = []"
    if "a_phase a = AwaitFetch"
    using busy(4) that
    by (simp add: fetch_failed_busy [where a = a] timer_fired_busy [where a = a] settle_fields)
  have stop: "filePond (step ClickStop s) = [] \<and> filePond (step ClickSend s) = []"
    if "a_phase a \<noteq> AwaitEncoding"
  proof -
    have "currentAbortController s = Some aid" "isRequestInProgress s"
      using busy(2) that by (auto simp add: act_inv_def)
    then show ?thesis
      using busy(4) that
      by (simp add: handleChatMessage_def abortCurrentRequest_busy [where a = a] settle_fields)
  qed
  from body fetch stop show ?thesis by blast
qed

text \<open>
  Instances: the submission with two files, ended while the network call is pending and
  after the response has arrived.
\<close>

theorem C9_witness:
  "(0, snd (hd (acts upload_in_flight))) \<in> set (acts upload_in_flight)
   \<and> a_phase (snd (hd (acts upload_in_flight))) = AwaitFetch
   \<and> filePond upload_in_flight = [File ''a.txt'' [1, 2], File ''b.txt'' [3]]
   \<and> filePond (step (FetchFailed 0 ''Failed to fetch'') upload_in_flight) = []
   \<and> filePond (step (TimerFired 0) upload_in_flight) = []
   \<and> filePond (step ClickStop upload_in_flight) = []
   \<and> filePond (step ClickSend upload_in_flight) = []
   \<and> filePond (step (FetchResolved 0 True) upload_in_flight) =
       [File ''a.txt'' [1, 2], File ''b.txt'' [3]]
   \<and> filePond (step (BodyParsed 0 (JObj [(''answer'', JStr ''Hi'')]))
        (step (FetchResolved 0 True) upload_in_flight)) = []"
proof -
  let ?s = "step (FetchResolved 0 True) upload_in_flight"
  have 1: "(0, snd (hd (acts upload_in_flight))) \<in> set (acts upload_in_flight)"
    and 2: "a_phase (snd (hd (acts upload_in_flight))) = AwaitFetch"
    by (simp_all add: upload_in_flight_eval)
  have reached: "?s =
      run ([TypeQuestion ''Hello'', TypeSpecificData '' ACME '', AddFile (File ''a.txt'' [1, 2]),
            AddFile (File ''b.txt'' [3]), ClickSend,
            FileLoaded 0 1 ''data:text/plain;base64,Aw=='',
            FileLoaded 0 0 ''data:text/plain;base64,AQI=''] @ [FetchResolved 0 True])
        (init (Some company_config) ''u1'' example_platform)"
    unfolding upload_in_flight_def by (simp only: run_snoc)
  have 3: "(0, snd (hd (acts ?s))) \<in> set (acts ?s)"
    and 4: "a_phase (snd (hd (acts ?s))) = AwaitBody True"
    and 5: "filePond ?s = [File ''a.txt'' [1, 2], File ''b.txt'' [3]]"
    by (simp_all add: fetch_resolved_def upload_in_flight_eval)
  show ?thesis
    using C9_files_removed_on_every_outcome [OF upload_in_flight_def 1,
        where m = "''Failed to fetch''"]
      C9_files_removed_on_every_outcome [OF reached 3, where ok = True
        and v = "JObj [(''answer'', JStr ''Hi'')]"]
      1 2 3 4 5 upload_in_flight_eval(2)
    by simp
qed

section \<open>A failed encoding\<close>

text \<open>
  When the FileReader of an attachment fails, the call ends before its \<^verbatim>\<open>try\<close> block: the
  page keeps the spinner and the stop mode, no cleanup runs, and Send and Stop change nothing
  from then on, since the request is marked in progress and no controller exists.
\<close>

lemma failed_encoding_leaves_page_busy:
  "acts (step (FileFailed 0 0) upload_encoding) = []
   \<and> isRequestInProgress (step (FileFailed 0 0) upload_encoding)
   \<and> spinner (step (FileFailed 0 0) upload_encoding)
   \<and> stopMode (step (FileFailed 0 0) upload_encoding)
   \<and> calls (step (FileFailed 0 0) upload_encoding) = []
   \<and> step ClickSend (step (FileFailed 0 0) upload_encoding) = step (FileFailed 0 0) upload_encoding
   \<and> step ClickStop (step (FileFailed 0 0) upload_encoding) = step (FileFailed 0 0) upload_encoding"
  by (simp add: upload_encoding_def eval_defs)

section \<open>The transcript entry of a user submission\<close>

text \<open>
  C4. With the structured field holding \<^verbatim>\<open>ACME\<close>, the prompt described as
  \<^verbatim>\<open>Summarize\<close> selected and the question empty, the entry rendered on submission has
  the text \<^verbatim>\<open>ACME: Summarize\<close>, and it carries the edit icon, whose click restores the
  empty question: the second branch of \<^verbatim>\<open>displayUserMessage\<close> leaves \<^verbatim>\<open>pencil\<close> true.
\<close>

theorem C4_structured_prompt_entry_has_edit_icon:
  "transcript
     (run [TypeSpecificData ''ACME'', SelectPrompt (Some (JStr ''summarize'')) ''Summarize'', ClickSend]
        (init (Some company_config) ''u1'' example_platform))
   = [UserMessage ''ACME: Summarize'' (Some [])]"
  by (simp add: company_config_def init_def ui_defs submit_defs val_text_def trim_def
      is_space1_def is_space2_def is_space3_def Let_def)

section \<open>Responses\<close>

text \<open>
  C10. When the response is successful and the decoded value has no \<^verbatim>\<open>answer\<close>, or a falsy
  one, the call completes and nothing is appended to the transcript: neither a bot message
  nor an error.
\<close>

theorem C10_falsy_answer_renders_nothing:
  assumes "map_of (acts s) aid = Some a"
    and "a_phase a = AwaitBody True"
    and "\<not> truthy_opt (get_prop v ''answer'')"
  shows "transcript (step (BodyParsed aid v) s) = transcript s
     \<and> map_of (acts (step (BodyParsed aid v) s)) aid = None
     \<and> \<not> isRequestInProgress (step (BodyParsed aid v) s)"
  using assms
  by (auto simp add: body_parsed_def settle_defs ui_defs truthy_opt_def Let_def delete_conv'
      split: option.splits)

text \<open>
  An instance: the response to Hello carries an empty answer.
\<close>

theorem C10_witness:
  "map_of (acts (step (FetchResolved 0 True) hello_in_flight)) 0 =
     Some (snd (hd (acts (step (FetchResolved 0 True) hello_in_flight))))
   \<and> a_phase (snd (hd (acts (step (FetchResolved 0 True) hello_in_flight)))) = AwaitBody True
   \<and> \<not> truthy_opt (get_prop (JObj [(''answer'', JStr [])]) ''answer'')
   \<and> transcript (step (BodyParsed 0 (JObj [(''answer'', JStr [])]))
         (step (FetchResolved 0 True) hello_in_flight))
       = [UserMessage ''Hello'' (Some ''Hello'')]"
proof -
  let ?s = "step (FetchResolved 0 True) hello_in_flight"
  let ?a = "snd (hd (acts ?s))"
  have 1: "map_of (acts ?s) 0 = Some ?a"
    by (simp add: hello_in_flight_eval fetch_resolved_def)
  have 2: "a_phase ?a = AwaitBody True"
    by (simp add: hello_in_flight_eval fetch_resolved_def)
  have 3: "\<not> truthy_opt (get_prop (JObj [(''answer'', JStr [])]) ''answer'')"
    by (simp add: truthy_opt_def)
  have 4: "transcript ?s = [UserMessage ''Hello'' (Some ''Hello'')]"
    by (simp add: hello_in_flight_eval fetch_resolved_def)
  from C10_falsy_answer_renders_nothing [OF 1 2 3] 1 2 3 4 show ?thesis
    by simp
qed

section \<open>Responses with an error status\<close>

text \<open>
  C7, as amended. For the request whose response has an error status, once the body is
  read: a decoded value with a truthy \<^verbatim>\<open>error_message\<close> renders exactly that message; a
  decoded value other than \<^verbatim>\<open>null\<close> with no \<^verbatim>\<open>error_message\<close>, or a falsy one, renders the
  generic text \<^verbatim>\<open>Error desconocido del servidor\<close>; a body that cannot be decoded, and the
  decoded \<^verbatim>\<open>null\<close>, render the connection error text followed by the message of the
  exception. In each case one error section is appended to the transcript and the call is
  over.
\<close>

theorem C7_error_status_rendering:
  assumes "map_of (acts s) aid = Some a" and "a_phase a = AwaitBody False"
  shows "(get_prop v ''error_message'' = Some msg \<and> truthy msg \<longrightarrow>
            transcript (step (BodyParsed aid v) s) =
              transcript s @ [ErrorSection ''error-section'' (''<p>'' @ js_string msg @ ''</p>'')])
     \<and> (v \<noteq> JNull \<and> \<not> truthy_opt (get_prop v ''error_message'') \<longrightarrow>
            transcript (step (BodyParsed aid v) s) =
              transcript s @ [ErrorSection ''error-section'' (''<p>'' @ msg_unknown @ ''</p>'')])
     \<and> (v = JNull \<longrightarrow>
            transcript (step (BodyParsed aid v) s) =
              transcript s @ [ErrorSection ''error-section''
                (''<p>'' @ msg_connection (exn_message null_read_error) @ ''</p>'')])
     \<and> transcript (step (BodyFailed aid m) s) =
          transcript s @ [ErrorSection ''error-section'' (''<p>'' @ msg_connection m @ ''</p>'')]
     \<and> map_of (acts (step (BodyParsed aid v) s)) aid = None
     \<and> map_of (acts (step (BodyFailed aid m) s)) aid = None"
proof -
  have parsed: "body_parsed aid v s = settle aid (Inr JNull) (snd (callLLMAPI_body False v s))"
    using body_parsed_busy [OF assms, of v] by simp
  have failed: "body_failed aid m s =
      settle aid (Inr JNull)
        (displayBotMessage (ErrorSection ''error-section'' (''<p>'' @ msg_connection m @ ''</p>'')) s)"
    using assms by (rule body_failed_busy)
  have 1: "transcript (step (BodyParsed aid v) s) =
      transcript s @ [ErrorSection ''error-section'' (''<p>'' @ js_string msg @ ''</p>'')]"
    if "get_prop v ''error_message'' = Some msg" and "truthy msg"
  proof -
    have "v \<noteq> JNull" using that(1) by auto
    then show ?thesis
      using that by (simp add: parsed callLLMAPI_body_def settle_returned(3) displayBotMessage_def)
  qed
  have 2: "transcript (step (BodyParsed aid v) s) =
      transcript s @ [ErrorSection ''error-section'' (''<p>'' @ msg_unknown @ ''</p>'')]"
    if "v \<noteq> JNull" and "\<not> truthy_opt (get_prop v ''error_message'')"
    using that
    by (simp add: parsed callLLMAPI_body_def settle_returned(3) displayBotMessage_def truthy_opt_def
        split: option.splits)
  have 3: "transcript (step (BodyParsed aid v) s) =
      transcript s @ [ErrorSection ''error-section''
        (''<p>'' @ msg_connection (exn_message null_read_error) @ ''</p>'')]"
    if "v = JNull"
    using that parsed
    by (simp add: callLLMAPI_body_def callLLMAPI_catch_def null_read_error_def
        settle_returned(3) displayBotMessage_def)
  have 4: "transcript (step (BodyFailed aid m) s) =
      transcript s @ [ErrorSection ''error-section'' (''<p>'' @ msg_connection m @ ''</p>'')]"
    by (simp add: failed settle_returned(3) displayBotMessage_def)
  have 5: "map_of (acts (step (BodyParsed aid v) s)) aid = None"
    "map_of (acts (step (BodyFailed aid m) s)) aid = None"
    by (simp_all add: parsed failed settle_fields delete_conv' callLLMAPI_body_fields
        displayBotMessage_def)
  from 1 2 3 4 5 show ?thesis by blast
qed

text \<open>
  Instances: the body of the spec's scenario, and an object with no message.
\<close>

theorem C7_witness:
  "map_of (acts hello_refused) 0 = Some (snd (hd (acts hello_refused)))
   \<and> a_phase (snd (hd (acts hello_refused))) = AwaitBody False
   \<and> transcript (step (BodyParsed 0 (JObj [(''error_message'', JStr ''db down'')])) hello_refused) =
       [UserMessage ''Hello'' (Some ''Hello''), ErrorSection ''error-section'' ''<p>db down</p>'']
   \<and> transcript (step (BodyParsed 0 (JObj [])) hello_refused) =
       [UserMessage ''Hello'' (Some ''Hello''),
        ErrorSection ''error-section'' ''<p>Error desconocido del servidor</p>'']"
proof -
  have 1: "map_of (acts hello_refused) 0 = Some (snd (hd (acts hello_refused)))"
    and 2: "a_phase (snd (hd (acts hello_refused))) = AwaitBody False"
    by (simp_all add: hello_refused_eval)
  show ?thesis
    using C7_error_status_rendering [OF 1 2, where v = "JObj [(''error_message'', JStr ''db down'')]"
        and msg = "JStr ''db down''"]
      C7_error_status_rendering [OF 1 2, where v = "JObj []"]
      1 2 hello_refused_eval(2)
    by (simp add: truthy_opt_def msg_unknown_def)
qed

text \<open>
  The claim as stated gives the generic fallback for a body that cannot be decoded; the page
  shows the connection error text with the parser's message instead.
\<close>

theorem C7_counterexample:
  "transcript (step (BodyFailed 0 ''Unexpected token < in JSON at position 0'') hello_refused) =
     [UserMessage ''Hello'' (Some ''Hello''),
      ErrorSection ''error-section''
        (''<p>'' @ msg_connection ''Unexpected token < in JSON at position 0'' @ ''</p>'')]
   \<and> msg_connection ''Unexpected token < in JSON at position 0'' \<noteq> msg_unknown"
  by (simp add: body_failed_busy [where a = "snd (hd (acts hello_refused))" and ok = False]
      hello_refused_eval settle_returned(3) displayBotMessage_def msg_connection_def msg_unknown_def)

section \<open>Document validation cards\<close>

lemma every_field_in_obj:
  "every_field_in ks (JObj kvs) = Inr (list_all (\<lambda>k. map_of kvs k \<noteq> None) ks)"
  by (induction ks) (auto simp add: map_of_eq_None_iff)

lemma render_card_ok:
  assumes "record_ok doc"
  shows "\<exists>c. render_card pf doc = Inr c \<and> shows_record doc c"
proof -
  obtain kvs where doc: "doc = JObj kvs"
    using assms by (auto simp add: record_ok_def split: json.splits)
  consider (none) "map_of kvs ''causes'' = None"
    | (empty) "map_of kvs ''causes'' = Some (JArr [])"
    | (some) x xs where "map_of kvs ''causes'' = Some (JArr (x # xs))"
    using assms doc
    by (auto simp add: record_ok_def split: option.splits json.splits) (metis list.exhaust)
  then show ?thesis
  proof cases
    case none
    then show ?thesis
      using doc by (simp add: render_card_def card_body_of_def shows_record_def Let_def)
  next
    case empty
    then show ?thesis
      using doc by (simp add: render_card_def card_body_of_def shows_record_def Let_def)
  next
    case some
    then show ?thesis
      using doc by (simp add: render_card_def card_body_of_def shows_record_def Let_def)
  qed
qed

lemma example_docs:
  "list_all record_ok [valid_doc, partial_doc, rejected_doc]"
  "filter complete_record [valid_doc, partial_doc, rejected_doc] = [valid_doc, rejected_doc]"
  "filter (\<lambda>doc. \<not> complete_record doc) [valid_doc, partial_doc, rejected_doc] = [partial_doc]"
  by (simp_all add: record_ok_def complete_record_def requiredFields_def valid_doc_def
      partial_doc_def rejected_doc_def)

text \<open>
  C6, as amended. \<^verbatim>\<open>display_document_validation\<close>, called on a sequence of records (objects
  whose \<^verbatim>\<open>causes\<close> is an array), logs one warning for each record that lacks a required
  field and renders the others in order, one card each: the notice of validity when
  \<^verbatim>\<open>is_valid\<close> is truthy, the list of the causes when it is falsy and the array is not empty.
  \<^verbatim>\<open>handleChatMessage\<close> does not call it: the call is commented out.
\<close>

theorem C6_document_cards:
  assumes "list_all record_ok document_list"
  shows "\<exists>s' cards.
       display_document_validation document_list s = Inr s'
     \<and> console s' = console s @ map ConsoleWarn (filter (\<lambda>doc. \<not> complete_record doc) document_list)
     \<and> transcript s' = transcript s @ map DocumentSection cards
     \<and> list_all2 shows_record (filter complete_record document_list) cards"
  using assms
proof (induction document_list arbitrary: s)
  case Nil
  then show ?case by simp
next
  case (Cons doc document_list)
  then have ok: "record_ok doc" and rest: "list_all record_ok document_list" by simp_all
  obtain kvs where doc: "doc = JObj kvs"
    using ok by (auto simp add: record_ok_def split: json.splits)
  have every: "every_field_in requiredFields doc = Inr (complete_record doc)"
    using doc by (simp add: every_field_in_obj complete_record_def)
  show ?case
  proof (cases "complete_record doc")
    case False
    let ?s1 = "s\<lparr>console := console s @ [ConsoleWarn doc]\<rparr>"
    obtain s' cards where
      "display_document_validation document_list ?s1 = Inr s'"
      "console s' = console ?s1 @ map ConsoleWarn (filter (\<lambda>doc. \<not> complete_record doc) document_list)"
      "transcript s' = transcript ?s1 @ map DocumentSection cards"
      "list_all2 shows_record (filter complete_record document_list) cards"
      using Cons.IH [OF rest, of ?s1] by blast
    then show ?thesis
      using False every by (intro exI [of _ s'] exI [of _ cards]) simp
  next
    case True
    obtain c where c: "render_card (browser s) doc = Inr c" "shows_record doc c"
      using render_card_ok [OF ok] by blast
    let ?s1 = "displayBotMessage (DocumentSection c) s"
    obtain s' cards where
      "display_document_validation document_list ?s1 = Inr s'"
      "console s' = console ?s1 @ map ConsoleWarn (filter (\<lambda>doc. \<not> complete_record doc) document_list)"
      "transcript s' = transcript ?s1 @ map DocumentSection cards"
      "list_all2 shows_record (filter complete_record document_list) cards"
      using Cons.IH [OF rest, of ?s1] by blast
    then show ?thesis
      using True every c
      by (intro exI [of _ s'] exI [of _ "c # cards"]) (simp add: displayBotMessage_def)
  qed
qed

text \<open>
  An instance: a valid record, a record without \<^verbatim>\<open>is_valid\<close> and a rejected record.
\<close>

theorem C6_witness:
  "list_all record_ok [valid_doc, partial_doc, rejected_doc]
   \<and> (\<exists>s' cards.
        display_document_validation [valid_doc, partial_doc, rejected_doc]
          (init None ''u1'' example_platform) = Inr s'
      \<and> console s' = [ConsoleWarn partial_doc]
      \<and> transcript s' = map DocumentSection cards
      \<and> list_all2 shows_record [valid_doc, rejected_doc] cards)"
  using C6_document_cards [OF example_docs(1), of "init None ''u1'' example_platform"] example_docs
  by (simp add: init_def)

text \<open>
  The claim as stated renders the cards when the response carries the records; a successful
  response with a complete, valid record under \<^verbatim>\<open>aditional_data.classify_documents\<close> adds
  the answer to the transcript and no card.
\<close>

theorem C6_counterexample:
  "transcript
     (step (BodyParsed 0
        (JObj [(''answer'', JStr ''Done''),
               (''aditional_data'', JObj [(''classify_documents'', JArr [valid_doc])])]))
        hello_answering)
   = [UserMessage ''Hello'' (Some ''Hello''), AnswerSection (JStr ''Done'')]"
  by (simp add: body_parsed_busy [where a = "snd (hd (acts hello_answering))" and ok = True]
      hello_answering_eval callLLMAPI_body_def settle_answer example_platform_def array_like_def)

section \<open>The structured field in the payload\<close>

lemma config_settle: "specificDataConfig (settle aid r s) = specificDataConfig s"
  by (rule settle_fields)

lemma config_resume_encoding:
  "specificDataConfig (resume_encoding aid s) = specificDataConfig s"
  by (simp add: resume_encoding_def callLLMAPI_start_def split: option.splits)

lemma config_abortCurrentRequest:
  "specificDataConfig (abortCurrentRequest s) = specificDataConfig s"
  by (simp add: abortCurrentRequest_def deliver_abort_def split_beta settle_fields ui_defs
      callLLMAPI_catch_def abort_error_def split: option.splits)

lemma config_handleChatMessage:
  "specificDataConfig (handleChatMessage s) = specificDataConfig s"
proof (cases "\<not> isRequestInProgress s \<and> \<not> (trim (questionField s) = [] \<and> agentSelectValue s = [])")
  case True
  then show ?thesis
    by (simp add: handleChatMessage_submit config_resume_encoding submitted_def)
next
  case False
  then show ?thesis
    by (auto simp add: handleChatMessage_def config_abortCurrentRequest Let_def)
qed

lemma config_step: "specificDataConfig (step e s) = specificDataConfig s"
proof (cases e)
  case ClickSend
  then show ?thesis by (simp add: config_handleChatMessage)
next
  case ClickStop
  then show ?thesis by (simp add: config_abortCurrentRequest)
next
  case (FileLoaded aid i result)
  then show ?thesis
    by (simp add: file_loaded_def config_resume_encoding split: option.splits)
next
  case (TimerFired aid)
  then show ?thesis
    by (simp add: timer_fired_def deliver_abort_def split_beta settle_fields callLLMAPI_catch_def
        abort_error_def split: option.splits)
next
  case (BodyParsed aid v)
  then show ?thesis
    by (simp add: body_parsed_def split_beta settle_fields callLLMAPI_body_def
        callLLMAPI_catch_def null_read_error_def displayBotMessage_def
        split: option.splits phase.splits)
next
  case (BodyFailed aid m)
  then show ?thesis
    by (simp add: body_failed_def split_beta settle_fields callLLMAPI_catch_def
        displayBotMessage_def split: option.splits phase.splits)
next
  case (FetchFailed aid m)
  then show ?thesis
    by (simp add: fetch_failed_def split_beta settle_fields callLLMAPI_catch_def
        displayBotMessage_def split: option.splits)
qed (simp_all add: click_edit_def file_failed_def fetch_resolved_def
      split: option.splits entry.splits)

lemma config_run: "specificDataConfig (run es s) = specificDataConfig s"
  by (induction es arbitrary: s) (simp_all add: config_step)

lemma build_client_data_key:
  "(data_key c \<notin> {''prompt_name'', ''question'', ''__proto__''} \<longrightarrow>
      (data_key c \<in> dom (build_client_data (Some c) p q v) \<longleftrightarrow> enabled c \<and> v \<noteq> [])
    \<and> build_client_data (Some c) p q v (data_key c) \<noteq> Some [])
   \<and> (data_key c \<noteq> ''__proto__'' \<and> enabled c \<and> v \<noteq> [] \<longrightarrow>
        build_client_data (Some c) p q v (data_key c) = Some v)
   \<and> build_client_data (Some c) p q v ''prompt_name'' =
        Some (if data_key c = ''prompt_name'' \<and> enabled c \<and> v \<noteq> [] then v else p)
   \<and> build_client_data (Some c) p q v ''question'' =
        Some (if data_key c = ''question'' \<and> enabled c \<and> v \<noteq> [] then v else q)
   \<and> ''__proto__'' \<notin> dom (build_client_data (Some c) p q v)"
  by (auto simp add: build_client_data_def assign_def Let_def split: if_splits)

lemma resume_encoding_single:
  assumes "acts s = [(k, a)]"
  shows "\<exists>a'. acts (resume_encoding aid s) = [(k, a')]
     \<and> a_question a' = a_question a \<and> a_selectedPrompt a' = a_selectedPrompt a
     \<and> a_specificDataValue a' = a_specificDataValue a"
  using assms
  by (auto simp add: resume_encoding_def callLLMAPI_start_def split: option.splits)

lemma file_loaded_single:
  assumes "acts s = [(k, a)]"
  shows "\<exists>a'. acts (file_loaded aid i result s) = [(k, a')]
     \<and> a_question a' = a_question a \<and> a_selectedPrompt a' = a_selectedPrompt a
     \<and> a_specificDataValue a' = a_specificDataValue a"
proof (cases "k = aid \<and> a_phase a = AwaitEncoding \<and> i < length (a_files a) \<and> a_results a ! i = None")
  case True
  let ?a = "a\<lparr>a_results := (a_results a)[i := Some (toBase64 (a_files a ! i) result)]\<rparr>"
  let ?s = "s\<lparr>acts := AList.update aid ?a (acts s)\<rparr>"
  have "acts ?s = [(k, ?a)]" using assms True by simp
  from resume_encoding_single [OF this, of aid]
  show ?thesis using assms True by (auto simp add: file_loaded_def)
next
  case False
  then show ?thesis using assms by (auto simp add: file_loaded_def)
qed

lemma nextId_resume_encoding: "nextId (resume_encoding aid s) = nextId s"
  by (simp add: resume_encoding_def callLLMAPI_start_def split: option.splits)

lemma nextId_step: "nextId s \<le> nextId (step e s)"
proof (cases e)
  case ClickSend
  show ?thesis
  proof (cases "\<not> isRequestInProgress s \<and> \<not> (trim (questionField s) = [] \<and> agentSelectValue s = [])")
    case True
    then show ?thesis
      using ClickSend by (simp add: handleChatMessage_submit nextId_resume_encoding submitted_def)
  next
    case False
    then show ?thesis
      using ClickSend by (auto simp add: handleChatMessage_def nextId_abortCurrentRequest Let_def)
  qed
next
  case ClickStop
  then show ?thesis by (simp add: nextId_abortCurrentRequest)
next
  case (FileLoaded aid i result)
  then show ?thesis
    by (simp add: file_loaded_def nextId_resume_encoding split: option.splits)
next
  case (TimerFired aid)
  then show ?thesis
    by (simp add: timer_fired_def deliver_abort_def split_beta settle_fields callLLMAPI_catch_def
        abort_error_def split: option.splits)
next
  case (BodyParsed aid v)
  then show ?thesis
    by (simp add: body_parsed_def split_beta settle_fields callLLMAPI_body_def
        callLLMAPI_catch_def null_read_error_def displayBotMessage_def
        split: option.splits phase.splits)
next
  case (BodyFailed aid m)
  then show ?thesis
    by (simp add: body_failed_def split_beta settle_fields callLLMAPI_catch_def
        displayBotMessage_def split: option.splits phase.splits)
next
  case (FetchFailed aid m)
  then show ?thesis
    by (simp add: fetch_failed_def split_beta settle_fields callLLMAPI_catch_def
        displayBotMessage_def split: option.splits)
qed (simp_all add: click_edit_def file_failed_def fetch_resolved_def
      split: option.splits entry.splits)

lemma acts_abortCurrentRequest:
  "acts (abortCurrentRequest s) = acts s
   \<or> (\<exists>c. acts (abortCurrentRequest s) = AList.delete c (acts s))"
  by (auto simp add: abortCurrentRequest_def deliver_abort_def split_beta settle_fields
      callLLMAPI_catch_def abort_error_def ui_defs split: option.splits)

lemma acts_abortCurrentRequest_single:
  assumes "acts s = [(k, a)]"
  shows "acts (abortCurrentRequest s) = [] \<or> acts (abortCurrentRequest s) = [(k, a)]"
proof -
  have "AList.delete c [(k, a)] = (if c = k then [] else [(k, a)])" for c
    by (simp add: AList.delete_eq)
  then show ?thesis
    using acts_abortCurrentRequest [of s] assms by (auto split: if_splits)
qed

lemma acts_step_idle:
  assumes "acts s = []"
  shows "acts (step e s) = [] \<or> (\<exists>a'. acts (step e s) = [(nextId s, a')])"
proof (cases e)
  case ClickSend
  show ?thesis
  proof (cases "\<not> isRequestInProgress s \<and> \<not> (trim (questionField s) = [] \<and> agentSelectValue s = [])")
    case True
    have "acts (submitted s) = [(nextId s, new_activation s)]"
      using assms by (simp add: submitted_def)
    from resume_encoding_single [OF this, of "nextId s"] show ?thesis
      using ClickSend True by (auto simp add: handleChatMessage_submit)
  next
    case False
    then show ?thesis
      using ClickSend assms acts_abortCurrentRequest [of s]
      by (auto simp add: handleChatMessage_def Let_def)
  qed
next
  case ClickStop
  then show ?thesis
    using assms acts_abortCurrentRequest [of s] by auto
qed (simp_all add: assms event_defs split: option.splits entry.splits)

lemma acts_settle_single:
  assumes "acts s = [(k, a)]"
  shows "acts (settle k r s) = []"
  using assms by (simp add: settle_fields)

lemma acts_step_busy:
  assumes "acts s = [(k, a)]" and "isRequestInProgress s"
  shows "acts (step e s) = [] \<or> (\<exists>a'. acts (step e s) = [(k, a')] \<and> same_capture a' a)"
proof (cases e)
  case ClickSend
  then show ?thesis
    using assms(2) acts_abortCurrentRequest_single [OF assms(1)]
    by (auto simp add: handleChatMessage_def same_capture_def)
next
  case ClickStop
  then show ?thesis
    using acts_abortCurrentRequest_single [OF assms(1)] by (auto simp add: same_capture_def)
next
  case (FileLoaded aid i result)
  then show ?thesis
    using file_loaded_single [OF assms(1), of aid i result] by (auto simp add: same_capture_def)
next
  case (TimerFired aid)
  then show ?thesis
    using assms
    by (auto simp add: timer_fired_def deliver_abort_def split_beta settle_fields
        callLLMAPI_catch_fields same_capture_def split: option.splits)
next
  case (BodyParsed aid v)
  then show ?thesis
    using assms
    by (auto simp add: body_parsed_def split_beta settle_fields callLLMAPI_body_fields
        same_capture_def split: option.splits phase.splits)
next
  case (BodyFailed aid m)
  then show ?thesis
    using assms
    by (auto simp add: body_failed_def split_beta settle_fields callLLMAPI_catch_fields
        same_capture_def split: option.splits phase.splits)
next
  case (FetchFailed aid m)
  then show ?thesis
    using assms
    by (auto simp add: fetch_failed_def split_beta settle_fields callLLMAPI_catch_fields
        same_capture_def split: option.splits)
next
  case (FetchResolved aid ok)
  then show ?thesis
    using assms by (auto simp add: fetch_resolved_def same_capture_def)
next
  case (FileFailed aid i)
  then show ?thesis
    using assms by (auto simp add: file_failed_def same_capture_def)
qed (simp_all add: assms same_capture_def click_edit_def split: option.splits entry.splits)

lemma capture_run:
  assumes "page_inv s" and "k < nextId s"
    and "\<forall>a'. (k, a') \<in> set (acts s) \<longrightarrow> same_capture a' a"
  shows "\<forall>a'. (k, a') \<in> set (acts (run es s)) \<longrightarrow> same_capture a' a"
  using assms
proof (induction es arbitrary: s)
  case Nil
  then show ?case by simp
next
  case (Cons e es)
  have inv: "page_inv (step e s)" using Cons.prems(1) by (rule inv_step)
  have lt: "k < nextId (step e s)"
    using Cons.prems(2) nextId_step [of s e] by simp
  have keep: "\<forall>a'. (k, a') \<in> set (acts (step e s)) \<longrightarrow> same_capture a' a"
    using Cons.prems(1)
  proof (cases rule: page_inv_cases)
    case idle
    then show ?thesis
      using acts_step_idle [of s e] Cons.prems(2) by auto
  next
    case (busy aid b)
    then have "isRequestInProgress s" by (simp add: act_inv_def)
    from acts_step_busy [OF busy(1) this, of e] show ?thesis
      using Cons.prems(3) busy(1) by (auto simp add: same_capture_def)
  qed
  from Cons.IH [OF inv lt keep] show ?case by simp
qed

lemma run_append: "run (es @ es') s = run es' (run es s)"
  by (induction es arbitrary: s) simp_all

lemma upload_ready_eval:
  "\<not> isRequestInProgress upload_ready"
  "trim (questionField upload_ready) = ''Hello''"
  "trim (specificDataField upload_ready) = ''ACME''"
  "run [FileLoaded 0 1 ''data:text/plain;base64,Aw=='', FileLoaded 0 0 ''data:text/plain;base64,AQI='']
     (step ClickSend upload_ready) = upload_in_flight"
  "agentSelectValue upload_ready = []"
  "nextId upload_ready = 0"
  by (simp_all add: upload_ready_def upload_in_flight_def init_def trim_def is_space1_def
      is_space2_def is_space3_def)

lemma blank_ready_eval:
  "\<not> isRequestInProgress blank_ready"
  "trim (questionField blank_ready) = ''Hello''"
  "trim (specificDataField blank_ready) = []"
  "acts (handleChatMessage blank_ready) =
     [(0, \<lparr>a_question = ''Hello'', a_selectedPrompt = [], a_specificDataValue = [],
            a_files = [], a_results = [], a_phase = AwaitFetch,
            a_data = Some \<lparr>p_question = ''Hello'', p_prompt_name = [],
              p_client_data = [''prompt_name'' \<mapsto> [], ''question'' \<mapsto> ''Hello''],
              p_files = [], p_external_user_id = ''u1''\<rparr>\<rparr>)]"
  "nextId blank_ready = 0"
  by (simp_all add: blank_ready_def eval_defs)

lemma disabled_ready_eval:
  "\<not> isRequestInProgress disabled_ready"
  "trim (questionField disabled_ready) = ''Hello''"
  "trim (specificDataField disabled_ready) = ''ACME''"
  "acts (handleChatMessage disabled_ready) =
     [(0, \<lparr>a_question = ''Hello'', a_selectedPrompt = [], a_specificDataValue = [],
            a_files = [], a_results = [], a_phase = AwaitFetch,
            a_data = Some \<lparr>p_question = ''Hello'', p_prompt_name = [],
              p_client_data = [''prompt_name'' \<mapsto> [], ''question'' \<mapsto> ''Hello''],
              p_files = [], p_external_user_id = ''u1''\<rparr>\<rparr>)]"
  "nextId disabled_ready = 0"
  by (simp_all add: disabled_ready_def disabled_config_def eval_defs)

text \<open>
  C8, as amended. Take any page reached from the page load, a submission there that passes
  validation, and the body of the call it starts, whatever happens on the page between the
  submission and the moment the body is built.
  \<^item> When the configured transport key is none of \<^verbatim>\<open>prompt_name\<close>, \<^verbatim>\<open>question\<close> and
    \<^verbatim>\<open>__proto__\<close>, it is a key of \<^verbatim>\<open>client_data\<close> exactly when the field is enabled and its
    trimmed value at the submission is not empty, and it never carries the empty string.
  \<^item> When the field is enabled and its trimmed value is not empty, a transport key other than
    \<^verbatim>\<open>__proto__\<close> carries the trimmed value.
  \<^item> The keys \<^verbatim>\<open>prompt_name\<close> and \<^verbatim>\<open>question\<close> are always present: each carries the value
    of the field when it is the transport key of an enabled, filled field, and the selected
    prompt or the trimmed question otherwise, which may be the empty string.
  \<^item> \<^verbatim>\<open>__proto__\<close> is never a key of \<^verbatim>\<open>client_data\<close>.
\<close>

theorem C8_structured_field_key:
  assumes "s0 = run es (init (Some c) ext pf)"
    and "\<not> isRequestInProgress s0"
    and "\<not> (trim (questionField s0) = [] \<and> agentSelectValue s0 = [])"
    and "(nextId s0, a) \<in> set (acts (run events (step ClickSend s0)))"
    and "a_data a = Some d"
  shows "(data_key c \<notin> {''prompt_name'', ''question'', ''__proto__''} \<longrightarrow>
            (data_key c \<in> dom (p_client_data d) \<longleftrightarrow>
               enabled c \<and> trim (specificDataField s0) \<noteq> [])
          \<and> p_client_data d (data_key c) \<noteq> Some [])
     \<and> (data_key c \<noteq> ''__proto__'' \<and> enabled c \<and> trim (specificDataField s0) \<noteq> [] \<longrightarrow>
            p_client_data d (data_key c) = Some (trim (specificDataField s0)))
     \<and> p_client_data d ''prompt_name'' =
          Some (if data_key c = ''prompt_name'' \<and> enabled c \<and> trim (specificDataField s0) \<noteq> []
                then trim (specificDataField s0) else agentSelectValue s0)
     \<and> p_client_data d ''question'' =
          Some (if data_key c = ''question'' \<and> enabled c \<and> trim (specificDataField s0) \<noteq> []
                then trim (specificDataField s0) else trim (questionField s0))
     \<and> ''__proto__'' \<notin> dom (p_client_data d)"
proof -
  let ?s1 = "step ClickSend s0"
  let ?s2 = "run events ?s1"
  have inv0: "page_inv s0" using assms(1) by (simp add: inv_reachable)
  have cfg0: "specificDataConfig s0 = Some c"
    using assms(1) by (simp add: config_run init_def)
  have idle: "acts s0 = []"
    using inv0 assms(2) by (auto simp add: page_inv_def act_inv_def)
  have s1: "?s1 = resume_encoding (nextId s0) (submitted s0)"
    using assms(2,3) by (simp add: handleChatMessage_submit)
  have "acts (submitted s0) = [(nextId s0, new_activation s0)]"
    using idle by (simp add: submitted_def)
  from resume_encoding_single [OF this, of "nextId s0"]
  have started: "\<forall>a'. (nextId s0, a') \<in> set (acts ?s1) \<longrightarrow> same_capture a' (new_activation s0)"
    using s1 by (auto simp add: same_capture_def)
  have inv1: "page_inv ?s1" using inv0 by (rule inv_step)
  have next1: "nextId s0 < nextId ?s1"
    using s1 by (simp add: nextId_resume_encoding submitted_def)
  have kept: "same_capture a (new_activation s0)"
    using capture_run [OF inv1 next1 started, of events] assms(4) by blast
  have "page_inv ?s2" using inv1 by (rule inv_run)
  then have "act_inv ?s2 (nextId s0) a"
    using assms(4) by (auto simp add: page_inv_def)
  then obtain rs where "a_data a = Some (build_data ?s2 a rs)"
    using assms(5) by (auto simp add: act_inv_def)
  then have d: "p_client_data d =
      build_client_data (Some c) (a_selectedPrompt a) (a_question a) (a_specificDataValue a)"
    using assms(5) cfg0
    by (auto simp add: build_data_def config_run config_handleChatMessage)
  have v: "a_specificDataValue a = (if enabled c then trim (specificDataField s0) else [])"
    using kept cfg0 by (simp add: same_capture_def new_activation_def specific_enabled_def)
  have p: "a_selectedPrompt a = agentSelectValue s0"
    using kept by (simp add: same_capture_def new_activation_def)
  have q: "a_question a = trim (questionField s0)"
    using kept by (simp add: same_capture_def new_activation_def)
  show ?thesis
    using build_client_data_key [of c "agentSelectValue s0" "trim (questionField s0)"
        "a_specificDataValue a"]
    unfolding d p q v
    by (cases "enabled c") simp_all
qed

text \<open>
  Instances: the field enabled and filled, enabled and blank, and filled but disabled.
\<close>

theorem C8_witness:
  "\<not> isRequestInProgress upload_ready
   \<and> trim (questionField upload_ready) = ''Hello''
   \<and> data_key company_config = ''company''
   \<and> enabled company_config
   \<and> trim (specificDataField upload_ready) = ''ACME''
   \<and> (\<exists>d. a_data (snd (hd (acts upload_in_flight))) = Some d
        \<and> ''company'' \<in> dom (p_client_data d)
        \<and> p_client_data d ''company'' = Some ''ACME''
        \<and> p_client_data d ''prompt_name'' = Some []
        \<and> p_client_data d ''question'' = Some ''Hello''
        \<and> ''__proto__'' \<notin> dom (p_client_data d))
   \<and> trim (specificDataField blank_ready) = []
   \<and> (\<exists>d. a_data (snd (hd (acts (step ClickSend blank_ready)))) = Some d
        \<and> ''company'' \<notin> dom (p_client_data d))
   \<and> \<not> enabled disabled_config
   \<and> trim (specificDataField disabled_ready) = ''ACME''
   \<and> (\<exists>d. a_data (snd (hd (acts (step ClickSend disabled_ready)))) = Some d
        \<and> ''company'' \<notin> dom (p_client_data d))"
proof -
  let ?loads = "[FileLoaded 0 1 ''data:text/plain;base64,Aw=='', FileLoaded 0 0 ''data:text/plain;base64,AQI='']"
  let ?a = "snd (hd (acts upload_in_flight))"
  let ?b = "snd (hd (acts (step ClickSend blank_ready)))"
  let ?c = "snd (hd (acts (step ClickSend disabled_ready)))"
  have valid: "\<not> (trim (questionField upload_ready) = [] \<and> agentSelectValue upload_ready = [])"
    "\<not> (trim (questionField blank_ready) = [] \<and> agentSelectValue blank_ready = [])"
    "\<not> (trim (questionField disabled_ready) = [] \<and> agentSelectValue disabled_ready = [])"
    by (simp_all add: upload_ready_eval blank_ready_eval disabled_ready_eval)
  have a: "(nextId upload_ready, ?a) \<in> set (acts (run ?loads (step ClickSend upload_ready)))"
    "a_data ?a = Some (the (a_data ?a))"
    unfolding upload_ready_eval(4) by (simp_all add: upload_in_flight_eval upload_ready_eval(6))
  have b: "(nextId blank_ready, ?b) \<in> set (acts (run [] (step ClickSend blank_ready)))"
    "a_data ?b = Some (the (a_data ?b))"
    by (simp_all add: blank_ready_eval)
  have c: "(nextId disabled_ready, ?c) \<in> set (acts (run [] (step ClickSend disabled_ready)))"
    "a_data ?c = Some (the (a_data ?c))"
    by (simp_all add: disabled_ready_eval)
  have filled: "\<exists>d. a_data ?a = Some d
      \<and> ''company'' \<in> dom (p_client_data d)
      \<and> p_client_data d ''company'' = Some ''ACME''
      \<and> p_client_data d ''prompt_name'' = Some []
      \<and> p_client_data d ''question'' = Some ''Hello''
      \<and> ''__proto__'' \<notin> dom (p_client_data d)"
    using C8_structured_field_key [OF upload_ready_def upload_ready_eval(1) valid(1) a]
      a(2) upload_ready_eval
    by (intro exI [of _ "the (a_data ?a)"]) (simp add: company_config_def)
  have blank: "\<exists>d. a_data ?b = Some d \<and> ''company'' \<notin> dom (p_client_data d)"
    using C8_structured_field_key [OF blank_ready_def blank_ready_eval(1) valid(2) b]
      b(2) blank_ready_eval(3)
    by (intro exI [of _ "the (a_data ?b)"]) (simp add: company_config_def)
  have disabled: "\<exists>d. a_data ?c = Some d \<and> ''company'' \<notin> dom (p_client_data d)"
    using C8_structured_field_key [OF disabled_ready_def disabled_ready_eval(1) valid(3) c]
      c(2)
    by (intro exI [of _ "the (a_data ?c)"]) (simp add: disabled_config_def)
  from filled blank disabled show ?thesis
    by (simp add: upload_ready_eval blank_ready_eval disabled_ready_eval company_config_def
        disabled_config_def)
qed

text \<open>
  The claim as stated fails for two transport keys. With \<^verbatim>\<open>prompt_name\<close> as the key and the
  field disabled, the key is sent, with the empty string when no prompt is selected. With
  \<^verbatim>\<open>__proto__\<close> as the key and the field enabled and filled with \<^verbatim>\<open>ACME\<close>, the key is not
  sent.
\<close>

theorem C8_counterexample:
  "\<not> enabled prompt_key_config
   \<and> (\<exists>d. a_data (snd (hd (acts prompt_key_in_flight))) = Some d
        \<and> data_key prompt_key_config \<in> dom (p_client_data d)
        \<and> p_client_data d (data_key prompt_key_config) = Some [])
   \<and> enabled proto_key_config
   \<and> (\<exists>d. a_data (snd (hd (acts proto_key_in_flight))) = Some d
        \<and> a_specificDataValue (snd (hd (acts proto_key_in_flight))) = ''ACME''
        \<and> data_key proto_key_config \<notin> dom (p_client_data d))"
  by (simp add: prompt_key_in_flight_def proto_key_in_flight_def prompt_key_config_def
      proto_key_config_def eval_defs)

end
